theory Spec2Isabelle
  imports Complex_Main "HOL-Library.AList" "HOL-Library.Multiset" "HOL-Library.Char_ord"
    "HOL-Library.List_Lexorder"
begin

section \<open>Python values and exceptions\<close>

text \<open>
  Pin identifiers, pin labels and the pin arguments of \<open>Harness.connect\<close> are
  dynamically typed in the source: YAML integers, YAML strings, or \<open>None\<close> for an open
  cable end. Python's \<open>==\<close> never identifies an \<open>int\<close> with a \<open>str\<close>, which the
  constructors keep apart.
\<close>

datatype pyv = PNone | PInt int | PStr string

text \<open>
  The source raises bare \<open>Exception(message)\<close> objects; the constructors below name them
  after the taxonomy of the specification and keep the values the message interpolates.
  The remaining constructors are the built-in exceptions Python raises by itself.
  \<^item> \<open>AmbiguousConnectionCount\<close>: 'No item in connection set revealed number of connections'
  \<^item> \<open>InconsistentConnectionCount\<close>: 'All items in connection set must reference the same
    number of connections'
  \<^item> \<open>DesignatorConflict d old new\<close>: 'Trying to redefine d from old to new'
  \<^item> \<open>AmbiguousPinReference n p\<close>: 'n:p is defined both in pinlabels and pins, for
    different pins.'
  \<^item> \<open>DuplicatePinLabel n p\<close>: 'n:p is defined more than once.'
  \<^item> \<open>UnknownPin n p\<close>: 'n:p not found.'
\<close>

datatype error =
    AmbiguousConnectionCount
  | InconsistentConnectionCount
  | DesignatorConflict string string string
  | AmbiguousPinReference string pyv
  | DuplicatePinLabel string pyv
  | UnknownPin string pyv
  | FormatError
  | ValueError
  | IndexError
  | KeyError string
  | TypeError
  | AttributeError

text \<open>\<open>xs.index(x)\<close>: the position of the first occurrence (callers check membership).\<close>

fun index_of :: "'a list \<Rightarrow> 'a \<Rightarrow> nat" where
  "index_of [] x = 0"
| "index_of (y # ys) x = (if y = x then 0 else Suc (index_of ys x))"

text \<open>\<open>str(n)\<close> for a non-negative integer, as the f-strings of the source print it.\<close>

definition digit_char :: "nat \<Rightarrow> char" where
  "digit_char d = ''0123456789'' ! d"

function str_nat :: "nat \<Rightarrow> string" where
  "str_nat n = (if n < 10 then [digit_char n] else str_nat (n div 10) @ [digit_char (n mod 10)])"
  by pat_completeness auto
termination
  by (relation "measure id") auto

declare str_nat.simps [simp del]

text \<open>\<open>s.split(c)\<close>: the pieces between the occurrences of the separator.\<close>

fun split_on :: "char \<Rightarrow> string \<Rightarrow> string list" where
  "split_on c [] = [[]]"
| "split_on c (x # xs) =
     (if x = c then [] # split_on c xs
      else (case split_on c xs of
              [] \<Rightarrow> [[x]]
            | p # ps \<Rightarrow> (x # p) # ps))"

text \<open>
  \<open>list(dict.fromkeys(xs))\<close>, also the iteration order of \<open>Counter(xs)\<close>: the distinct
  elements in order of first occurrence.
\<close>

definition dict_fromkeys :: "'a list \<Rightarrow> 'a list" where
  "dict_fromkeys xs = fold (\<lambda>x acc. if x \<in> set acc then acc else acc @ [x]) xs []"

section \<open>Designator resolution (\<open>resolve_designator\<close> in \<open>wireviz.parse\<close>)\<close>

text \<open>
  The two dictionaries the closure \<open>resolve_designator\<close> mutates. A Python \<open>dict\<close> is an
  association list in insertion order; \<open>map_of\<close> reads it and \<open>AList.update\<close> writes it
  (in place for a key that exists, at the end otherwise).
\<close>

record res_state =
  designators_and_templates :: "(string \<times> string) list"
  autogenerated_designators :: "(string \<times> nat) list"

definition init_res_state :: res_state where
  "init_res_state = \<lparr>designators_and_templates = [], autogenerated_designators = []\<rparr>"

text \<open>
  A raise is \<open>Inl (e, s)\<close>, with \<open>s\<close> the state at the moment of the raise (the counter of
  an auto-generated designator has been incremented when the conflict is found); a return
  is \<open>Inr ((template, designator), s)\<close>. Unpacking \<open>inp.split('.')\<close> into two names
  raises \<open>ValueError\<close> when the token has more than one dot.
\<close>

text \<open>\<open>autogenerated_designators.get(template, 0)\<close> and \<open>f'_{template}_{n}'\<close>.\<close>

definition get_count :: "(string \<times> nat) list \<Rightarrow> string \<Rightarrow> nat" where
  "get_count d template = (case map_of d template of None \<Rightarrow> 0 | Some c \<Rightarrow> c)"

definition auto_name :: "string \<Rightarrow> nat \<Rightarrow> string" where
  "auto_name template n = ''_'' @ template @ ''_'' @ str_nat n"

definition resolve_designator ::
  "res_state \<Rightarrow> string \<Rightarrow> error \<times> res_state + (string \<times> string) \<times> res_state" where
  "resolve_designator st inp =
     (if CHR ''.'' \<in> set inp then
        (case split_on CHR ''.'' inp of
           [template, designator0] \<Rightarrow>
             (let (designator, st1) =
                (if designator0 = [] then
                   (let n = get_count (autogenerated_designators st) template + 1
                    in (auto_name template n,
                        st\<lparr>autogenerated_designators :=
                             AList.update template n (autogenerated_designators st)\<rparr>))
                 else (designator0, st))
              in (case map_of (designators_and_templates st1) designator of
                    Some t \<Rightarrow>
                      if t \<noteq> template then Inl (DesignatorConflict designator t template, st1)
                      else Inr ((template, designator), st1)
                  | None \<Rightarrow>
                      Inr ((template, designator),
                           st1\<lparr>designators_and_templates :=
                                 AList.update designator template
                                   (designators_and_templates st1)\<rparr>)))
         | _ \<Rightarrow> Inl (ValueError, st))
      else
        (let template = inp; designator = inp in
         (case map_of (designators_and_templates st) designator of
            Some t \<Rightarrow> Inr ((template, designator), st)
          | None \<Rightarrow>
              Inr ((template, designator),
                   st\<lparr>designators_and_templates :=
                        AList.update designator template (designators_and_templates st)\<rparr>))))"

text \<open>
  One resolution pass: the tokens are resolved one after the other on the same two
  dictionaries, which start empty; the pass stops at the first raise. The result lists the
  (template, designator) pairs returned, in order.
\<close>

fun resolve_all ::
  "res_state \<Rightarrow> string list \<Rightarrow> error \<times> res_state + (string \<times> string) list \<times> res_state" where
  "resolve_all st [] = Inr ([], st)"
| "resolve_all st (inp # inps) =
     (case resolve_designator st inp of
        Inl e \<Rightarrow> Inl e
      | Inr (td, st1) \<Rightarrow>
          (case resolve_all st1 inps of
             Inl e \<Rightarrow> Inl e
           | Inr (tds, st2) \<Rightarrow> Inr (td # tds, st2)))"

section \<open>The entity model\<close>

text \<open>
  Modelled from the spec: the classes \<open>Connector\<close>, \<open>Cable\<close>, \<open>Connection\<close>,
  \<open>AdditionalComponent\<close>, \<open>MatePin\<close> and \<open>MateComponent\<close> live in
  \<open>wireviz/DataClasses.py\<close>, which is not among the sources. The records below carry the
  attributes that \<open>Harness.py\<close> reads (section 3 of the specification names them); a
  field that may hold \<open>None\<close>, a string or a list of strings is a \<open>pyfield\<close>. The type
  \<open>'q\<close> is the type of quantities (lengths, gauges, counts of parts).
\<close>

datatype pyfield = FNone | FStr string | FList "string list"

record connection =
  from_name :: "string option"
  from_port :: pyv
  via_port :: pyv
  to_name :: "string option"
  to_port :: pyv

record 'q additional_component =
  ac_description :: string
  ac_qty :: 'q
  ac_unit :: "string option"
  ac_manufacturer :: pyfield
  ac_mpn :: pyfield
  ac_pn :: pyfield
  ac_qty_multiplier :: "string option"

record 'q connector =
  c_name :: string
  c_pins :: "pyv list"
  c_pinlabels :: "pyv list"
  c_type :: "string option"
  c_subtype :: "string option"
  c_pincount :: nat
  c_show_pincount :: bool
  c_color :: "string option"
  c_manufacturer :: pyfield
  c_mpn :: pyfield
  c_pn :: pyfield
  c_show_name :: bool
  c_ignore_in_bom :: bool
  c_additional_components :: "'q additional_component list"

datatype shield = ShieldFlag bool | ShieldColor string

record 'q cable =
  w_name :: string
  w_connections :: "connection list"
  w_category :: "string option"
  w_type :: "string option"
  w_wirecount :: nat
  w_gauge :: "'q option"
  w_gauge_unit :: "string option"
  w_shield :: shield
  w_length :: 'q
  w_colors :: "string list"
  w_manufacturer :: pyfield
  w_mpn :: pyfield
  w_pn :: pyfield
  w_show_name :: bool
  w_ignore_in_bom :: bool
  w_additional_components :: "'q additional_component list"

datatype mate =
    MatePin string pyv string pyv string
  | MateComponent string string string

text \<open>
  Modelled from the spec: \<open>Cable.connect\<close> (in \<open>DataClasses.py\<close>) adds one connection
  record \<open>(from_name, from_pin, via_port, to_name, to_pin)\<close> to the cable's list of
  connections.
\<close>

definition cable_connect ::
  "'q cable \<Rightarrow> string option \<Rightarrow> pyv \<Rightarrow> pyv \<Rightarrow> string option \<Rightarrow> pyv \<Rightarrow> 'q cable" where
  "cable_connect cable fname fpin vpin tname tpin =
     cable\<lparr>w_connections := w_connections cable @
       [\<lparr>from_name = fname, from_port = fpin, via_port = vpin,
         to_name = tname, to_port = tpin\<rparr>]\<rparr>"

section \<open>The harness (\<open>Harness.py\<close>)\<close>

text \<open>A line of the bill of materials before and after it has got its \<open>id\<close> (the field
  \<open>row_id\<close>).\<close>

record 'q bom_entry =
  item :: string
  qty :: 'q
  unit :: "string option"
  designators :: pyfield
  manufacturer :: pyfield
  mpn :: pyfield
  pn :: pyfield

record 'q bom_row = "'q bom_entry" +
  row_id :: nat

text \<open>
  A freestanding BOM line of the input document: a YAML mapping read with \<open>item.get\<close>,
  so the description and the quantity may be absent.
\<close>

record 'q bom_item =
  bi_description :: "string option"
  bi_qty :: "'q option"
  bi_unit :: "string option"
  bi_designators :: pyfield
  bi_manufacturer :: pyfield
  bi_mpn :: pyfield
  bi_pn :: pyfield

text \<open>
  The attributes \<open>Harness.__init__\<close> sets. The dictionaries \<open>connectors\<close> and \<open>cables\<close>
  are association lists in insertion order, which is the order \<open>bom\<close> iterates them in.
\<close>

record 'q harness =
  color_mode :: string
  mini_bom_mode :: bool
  connectors :: "(string \<times> 'q connector) list"
  cables :: "(string \<times> 'q cable) list"
  mates :: "mate list"
  bom_cache :: "'q bom_row list"
  additional_bom_items :: "'q bom_item list"

definition Harness_init :: "'q harness" where
  "Harness_init =
     \<lparr>color_mode = ''SHORT'', mini_bom_mode = True, connectors = [], cables = [],
      mates = [], bom_cache = [], additional_bom_items = []\<rparr>"

text \<open>
  Modelled from the spec: \<open>Connector(name, **attribs)\<close> and \<open>Cable(name, **attribs)\<close> are the
  constructors of \<open>DataClasses.py\<close>; the instance is the template's attribute set under the
  designator as its name.
\<close>

definition add_connector :: "'q harness \<Rightarrow> string \<Rightarrow> 'q connector \<Rightarrow> 'q harness" where
  "add_connector h name attribs =
     h\<lparr>connectors := AList.update name (attribs\<lparr>c_name := name\<rparr>) (connectors h)\<rparr>"

definition add_cable :: "'q harness \<Rightarrow> string \<Rightarrow> 'q cable \<Rightarrow> 'q harness" where
  "add_cable h name attribs =
     h\<lparr>cables := AList.update name (attribs\<lparr>w_name := name\<rparr>) (cables h)\<rparr>"

definition add_bom_item :: "'q harness \<Rightarrow> 'q bom_item \<Rightarrow> 'q harness" where
  "add_bom_item h line = h\<lparr>additional_bom_items := additional_bom_items h @ [line]\<rparr>"

subsection \<open>\<open>Harness.connect\<close>\<close>

text \<open>
  One round of the loop over \<open>zip([from_name, to_name], [from_pin, to_pin])\<close>. The round
  reads the harness and may assign the local variables \<open>from_pin\<close> and \<open>to_pin\<close>, which
  are threaded as a pair; \<open>name\<close> and \<open>pin\<close> are the loop variables, and the zipped
  lists are built before the first round, so \<open>pin\<close> is the caller's argument in both
  rounds. \<open>connector.pins[index]\<close> raises \<open>IndexError\<close> when the labels outnumber the pins.
\<close>

definition check_pin ::
  "'q harness \<Rightarrow> string option \<Rightarrow> string option \<Rightarrow> string option \<Rightarrow> pyv \<Rightarrow> pyv \<times> pyv
     \<Rightarrow> error + pyv \<times> pyv" where
  "check_pin h fname tname name pin fp_tp =
     (case name of
        None \<Rightarrow> Inr fp_tp
      | Some nm \<Rightarrow>
          (case map_of (connectors h) nm of
             None \<Rightarrow> Inr fp_tp
           | Some connector \<Rightarrow>
               if pin \<in> set (c_pins connector) \<and> pin \<in> set (c_pinlabels connector)
                  \<and> index_of (c_pins connector) pin \<noteq> index_of (c_pinlabels connector) pin
               then Inl (AmbiguousPinReference nm pin)
               else if pin \<in> set (c_pinlabels connector) then
                 (if count_list (c_pinlabels connector) pin > 1
                  then Inl (DuplicatePinLabel nm pin)
                  else
                    (let index = index_of (c_pinlabels connector) pin in
                     if index < length (c_pins connector) then
                       (let pin1 = c_pins connector ! index;
                            fp = (if name = fname then pin1 else fst fp_tp);
                            tp = (if name = tname then pin1 else snd fp_tp)
                        in if pin1 \<notin> set (c_pins connector) then Inl (UnknownPin nm pin1)
                           else Inr (fp, tp))
                     else Inl IndexError))
               else if pin \<notin> set (c_pins connector) then Inl (UnknownPin nm pin)
               else Inr fp_tp))"

text \<open>
  A raise is \<open>Inl (e, h)\<close> with \<open>h\<close> the harness at the moment of the raise; a return is
  \<open>Inr h\<close> with the harness after the call. \<open>self.cables[via_name]\<close> raises \<open>KeyError\<close>
  for a name that is no cable.
\<close>

definition connect ::
  "'q harness \<Rightarrow> string option \<Rightarrow> pyv \<Rightarrow> string \<Rightarrow> pyv \<Rightarrow> string option \<Rightarrow> pyv
     \<Rightarrow> error \<times> 'q harness + 'q harness" where
  "connect h fname fpin via_name via_pin tname tpin =
     (case check_pin h fname tname fname fpin (fpin, tpin) of
        Inl e \<Rightarrow> Inl (e, h)
      | Inr fp_tp1 \<Rightarrow>
          (case check_pin h fname tname tname tpin fp_tp1 of
             Inl e \<Rightarrow> Inl (e, h)
           | Inr (fp, tp) \<Rightarrow>
               (case map_of (cables h) via_name of
                  None \<Rightarrow> Inl (KeyError via_name, h)
                | Some cable \<Rightarrow>
                    Inr (h\<lparr>cables :=
                           AList.update via_name
                             (cable_connect cable fname fp via_pin tname tp) (cables h)\<rparr>))))"

section \<open>The range expander\<close>

text \<open>
  The value of a mapping entry of a connection set: a single scalar or a list of scalars.
\<close>

datatype pinspec = PScalar pyv | PSeq "pyv list"

text \<open>
  Modelled from the spec: \<open>wv_helper.expand\<close> is not among the sources. Section 4.1 of the
  specification: the value is a single scalar, a list of scalars, or a string of
  comma-separated tokens, each token a single integer or an inclusive range
  \<open>start-end\<close>; the result is the ordered sequence of the expanded integers (a range may
  descend) and a malformed token (not numeric, an incomplete range) fails with
  \<open>FormatError\<close>.
\<close>

definition digit_val :: "char \<Rightarrow> nat option" where
  "digit_val c =
     (if c \<in> set ''0123456789'' then Some (index_of ''0123456789'' c) else None)"

fun nat_of_digits :: "nat \<Rightarrow> string \<Rightarrow> nat option" where
  "nat_of_digits acc [] = Some acc"
| "nat_of_digits acc (c # cs) =
     (case digit_val c of
        None \<Rightarrow> None
      | Some d \<Rightarrow> nat_of_digits (10 * acc + d) cs)"

definition parse_int :: "string \<Rightarrow> int option" where
  "parse_int s = (if s = [] then None else map_option int (nat_of_digits 0 s))"

definition expand_token :: "string \<Rightarrow> error + pyv list" where
  "expand_token tok =
     (case parse_int tok of
        Some n \<Rightarrow> Inr [PInt n]
      | None \<Rightarrow>
          (case split_on CHR ''-'' tok of
             [a, b] \<Rightarrow>
               (case (parse_int a, parse_int b) of
                  (Some m, Some n) \<Rightarrow>
                    Inr (map PInt (if m \<le> n then [m..n] else rev [n..m]))
                | _ \<Rightarrow> Inl FormatError)
           | _ \<Rightarrow> Inl FormatError))"

text \<open>The first error of a sequence of results, or all the values.\<close>

fun collect :: "('e + 'a) list \<Rightarrow> 'e + 'a list" where
  "collect [] = Inr []"
| "collect (r # rs) =
     (case r of
        Inl e \<Rightarrow> Inl e
      | Inr x \<Rightarrow> (case collect rs of Inl e \<Rightarrow> Inl e | Inr xs \<Rightarrow> Inr (x # xs)))"

definition expand_scalar :: "pyv \<Rightarrow> error + pyv list" where
  "expand_scalar v =
     (case v of
        PInt n \<Rightarrow> Inr [PInt n]
      | PStr s \<Rightarrow> map_sum (\<lambda>e. e) concat (collect (map expand_token (split_on CHR '','' s)))
      | PNone \<Rightarrow> Inl FormatError)"

definition expand :: "pinspec \<Rightarrow> error + pyv list" where
  "expand yaml_data =
     (case yaml_data of
        PScalar v \<Rightarrow> expand_scalar v
      | PSeq vs \<Rightarrow> map_sum (\<lambda>e. e) concat (collect (map expand_scalar vs)))"

section \<open>The connection resolution engine (\<open>wireviz.parse\<close>)\<close>

text \<open>
  An entry of a connection set: a bare designator string, a list of designator strings,
  or a mapping from a designator to a pin range. A mapping is the list of its items; the
  source reads the first key and the first value only, and \<open>list(...)[0]\<close> raises
  \<open>IndexError\<close> on an empty mapping.
\<close>

datatype entry = EStr string | EList "string list" | EDict "(string \<times> pinspec) list"

text \<open>
  The input document after \<open>yaml.safe_load\<close>: the connector and cable templates (each an
  attribute set), the connection sets and the freestanding BOM lines. A section that is
  absent or of the wrong type is replaced by an empty one in the source, so it is an
  empty list here.
\<close>

record 'q document =
  doc_connectors :: "(string \<times> 'q connector) list"
  doc_cables :: "(string \<times> 'q cable) list"
  doc_connections :: "entry list list"
  doc_additional_bom_items :: "'q bom_item list"

text \<open>
  The state of \<open>parse\<close> while it walks the connection sets: the harness and the two
  dictionaries of \<open>resolve_designator\<close>.
\<close>

record 'q pstate =
  p_harness :: "'q harness"
  p_res :: res_state

subsection \<open>Step 1: the number of parallel connections\<close>

text \<open>
  The list \<open>connectioncount\<close>: the length of a list entry, the length of the expanded
  pin range of a mapping entry, \<open>None\<close> for a string. The function \<open>expand\<close> is a
  parameter of the engine.
\<close>

fun entry_count :: "(pinspec \<Rightarrow> error + pyv list) \<Rightarrow> entry \<Rightarrow> error + nat option" where
  "entry_count ex (EList items) = Inr (Some (length items))"
| "entry_count ex (EDict kvs) =
     (case kvs of
        [] \<Rightarrow> Inl IndexError
      | (k, v) # _ \<Rightarrow> (case ex v of Inl e \<Rightarrow> Inl e | Inr ps \<Rightarrow> Inr (Some (length ps))))"
| "entry_count ex (EStr s) = Inr None"

text \<open>
  Python's truth value of an element of \<open>connectioncount\<close>, which \<open>any(...)\<close> and
  \<open>filter(None, ...)\<close> test: \<open>None\<close> and \<open>0\<close> are false.
\<close>

fun truthy_count :: "nat option \<Rightarrow> bool" where
  "truthy_count None = False"
| "truthy_count (Some n) = (n \<noteq> 0)"

definition filter_None :: "nat option list \<Rightarrow> nat list" where
  "filter_None cc = map the (filter truthy_count cc)"

definition connection_count ::
  "(pinspec \<Rightarrow> error + pyv list) \<Rightarrow> entry list \<Rightarrow> error + nat" where
  "connection_count ex connection_set =
     (case collect (map (entry_count ex) connection_set) of
        Inl e \<Rightarrow> Inl e
      | Inr connectioncount \<Rightarrow>
          if \<not> list_ex truthy_count connectioncount then Inl AmbiguousConnectionCount
          else if length (remdups (filter_None connectioncount)) > 1
            then Inl InconsistentConnectionCount
          else Inr (hd (filter_None connectioncount)))"

subsection \<open>Step 2: string entries become lists\<close>

definition normalize_entry :: "nat \<Rightarrow> entry \<Rightarrow> entry" where
  "normalize_entry connectioncount e =
     (case e of EStr s \<Rightarrow> EList (replicate connectioncount s) | _ \<Rightarrow> e)"

subsection \<open>Step 3: the designators are resolved\<close>

fun resolve_entry :: "res_state \<Rightarrow> entry \<Rightarrow> error \<times> res_state + entry \<times> res_state" where
  "resolve_entry st (EList items) =
     (case resolve_all st items of
        Inl e \<Rightarrow> Inl e
      | Inr (tds, st1) \<Rightarrow> Inr (EList (map snd tds), st1))"
| "resolve_entry st (EDict kvs) =
     (case kvs of
        [] \<Rightarrow> Inl (IndexError, st)
      | (key, val) # _ \<Rightarrow>
          (case resolve_designator st key of
             Inl e \<Rightarrow> Inl e
           | Inr ((template, designator), st1) \<Rightarrow> Inr (EDict [(designator, val)], st1)))"
| "resolve_entry st (EStr s) = Inr (EStr s, st)"

fun resolve_entries ::
  "res_state \<Rightarrow> entry list \<Rightarrow> error \<times> res_state + entry list \<times> res_state" where
  "resolve_entries st [] = Inr ([], st)"
| "resolve_entries st (e # es) =
     (case resolve_entry st e of
        Inl x \<Rightarrow> Inl x
      | Inr (e1, st1) \<Rightarrow>
          (case resolve_entries st1 es of
             Inl x \<Rightarrow> Inl x
           | Inr (es1, st2) \<Rightarrow> Inr (e1 # es1, st2)))"

subsection \<open>Step 4: one \<open>{designator: pin}\<close> item per connection\<close>

text \<open>
  An item \<open>{designator: pin}\<close> is the pair \<open>(designator, pin)\<close>. An element of a list entry
  gets pin \<open>1\<close>. No string entry is left at this step (step 2 has replaced them, the
  count being positive); the source would fail on one in step 5, where it asks a
  character for its keys.
\<close>

fun expand_entry ::
  "(pinspec \<Rightarrow> error + pyv list) \<Rightarrow> entry \<Rightarrow> error + (string \<times> pyv) list" where
  "expand_entry ex (EList ds) = Inr (map (\<lambda>designator. (designator, PInt 1)) ds)"
| "expand_entry ex (EDict kvs) =
     (case kvs of
        [] \<Rightarrow> Inl IndexError
      | (designator, v) # _ \<Rightarrow>
          (case ex v of
             Inl e \<Rightarrow> Inl e
           | Inr pinlist \<Rightarrow> Inr (map (\<lambda>pin. (designator, pin)) pinlist)))"
| "expand_entry ex (EStr s) = Inl AttributeError"

subsection \<open>Step 5: the instances are created from the templates\<close>

definition generate_item ::
  "'q document \<Rightarrow> res_state \<Rightarrow> 'q harness \<Rightarrow> string \<times> pyv \<Rightarrow> error + 'q harness" where
  "generate_item doc rs h it =
     (let designator = fst it in
      case map_of (designators_and_templates rs) designator of
        None \<Rightarrow> Inl (KeyError designator)
      | Some template \<Rightarrow>
          if map_of (connectors h) designator \<noteq> None then Inr h
          else if template \<in> set (map fst (doc_connectors doc)) then
            (case map_of (doc_connectors doc) template of
               None \<Rightarrow> Inl (KeyError template)
             | Some attribs \<Rightarrow> Inr (add_connector h designator attribs))
          else if map_of (cables h) designator \<noteq> None then Inr h
          else if template \<in> set (map fst (doc_cables doc)) then
            (case map_of (doc_cables doc) template of
               None \<Rightarrow> Inl (KeyError template)
             | Some attribs \<Rightarrow> Inr (add_cable h designator attribs))
          else Inr h)"

fun generate_items ::
  "'q document \<Rightarrow> res_state \<Rightarrow> 'q harness \<Rightarrow> (string \<times> pyv) list
     \<Rightarrow> error \<times> 'q harness + 'q harness" where
  "generate_items doc rs h [] = Inr h"
| "generate_items doc rs h (it # its) =
     (case generate_item doc rs h it of
        Inl e \<Rightarrow> Inl (e, h)
      | Inr h1 \<Rightarrow> generate_items doc rs h1 its)"

subsection \<open>Step 6: the transposition \<open>list(map(list, zip(*connection_set)))\<close>\<close>

text \<open>\<open>zip\<close> stops at the end of its shortest argument, and yields nothing without one.\<close>

definition zip_star :: "'a list list \<Rightarrow> 'a list list" where
  "zip_star xss =
     (case xss of
        [] \<Rightarrow> []
      | xs # _ \<Rightarrow>
          map (\<lambda>i. map (\<lambda>ys. ys ! i) xss) [0..<fold min (map length xss) (length xs)])"

subsection \<open>Step 7: the cables are connected\<close>

text \<open>
  The body of the inner loop, for the item at position \<open>index_item\<close> of one connection:
  an item whose designator is a cable of the harness is connected to its two neighbours,
  or to \<open>None\<close> at an end of the connection.
\<close>

definition connect_item ::
  "'q harness \<Rightarrow> (string \<times> pyv) list \<Rightarrow> nat \<Rightarrow> error \<times> 'q harness + 'q harness" where
  "connect_item h connection index_item =
     (let it = connection ! index_item; designator = fst it in
      if map_of (cables h) designator \<noteq> None then
        (let (fname, fpin) =
               (if index_item = 0 then (None, PNone)
                else (Some (fst (connection ! (index_item - 1))),
                      snd (connection ! (index_item - 1))));
             via_name = designator;
             via_pin = snd it;
             (tname, tpin) =
               (if index_item = length connection - 1 then (None, PNone)
                else (Some (fst (connection ! (index_item + 1))),
                      snd (connection ! (index_item + 1))))
         in connect h fname fpin via_name via_pin tname tpin)
      else Inr h)"

fun connect_items ::
  "'q harness \<Rightarrow> (string \<times> pyv) list \<Rightarrow> nat list \<Rightarrow> error \<times> 'q harness + 'q harness" where
  "connect_items h connection [] = Inr h"
| "connect_items h connection (i # is) =
     (case connect_item h connection i of
        Inl x \<Rightarrow> Inl x
      | Inr h1 \<Rightarrow> connect_items h1 connection is)"

fun connect_all ::
  "'q harness \<Rightarrow> (string \<times> pyv) list list \<Rightarrow> error \<times> 'q harness + 'q harness" where
  "connect_all h [] = Inr h"
| "connect_all h (connection # rest) =
     (case connect_items h connection [0..<length connection] of
        Inl x \<Rightarrow> Inl x
      | Inr h1 \<Rightarrow> connect_all h1 rest)"

subsection \<open>One connection set, and the whole document\<close>

text \<open>
  The body of the loop over the connection sets. A raise is \<open>Inl (e, s)\<close> with \<open>s\<close> the
  state at the moment of the raise.
\<close>

definition process_set ::
  "(pinspec \<Rightarrow> error + pyv list) \<Rightarrow> 'q document \<Rightarrow> 'q pstate \<Rightarrow> entry list
     \<Rightarrow> error \<times> 'q pstate + 'q pstate" where
  "process_set ex doc st connection_set =
     (case connection_count ex connection_set of
        Inl e \<Rightarrow> Inl (e, st)
      | Inr connectioncount \<Rightarrow>
          (case resolve_entries (p_res st) (map (normalize_entry connectioncount) connection_set) of
             Inl (e, rs) \<Rightarrow> Inl (e, st\<lparr>p_res := rs\<rparr>)
           | Inr (set2, rs) \<Rightarrow>
               (case collect (map (expand_entry ex) set2) of
                  Inl e \<Rightarrow> Inl (e, st\<lparr>p_res := rs\<rparr>)
                | Inr set3 \<Rightarrow>
                    (case generate_items doc rs (p_harness st) (concat set3) of
                       Inl (e, h) \<Rightarrow> Inl (e, \<lparr>p_harness = h, p_res = rs\<rparr>)
                     | Inr h1 \<Rightarrow>
                         (case connect_all h1 (zip_star set3) of
                            Inl (e, h) \<Rightarrow> Inl (e, \<lparr>p_harness = h, p_res = rs\<rparr>)
                          | Inr h2 \<Rightarrow> Inr \<lparr>p_harness = h2, p_res = rs\<rparr>)))))"

fun process_sets ::
  "(pinspec \<Rightarrow> error + pyv list) \<Rightarrow> 'q document \<Rightarrow> 'q pstate \<Rightarrow> entry list list
     \<Rightarrow> error \<times> 'q pstate + 'q pstate" where
  "process_sets ex doc st [] = Inr st"
| "process_sets ex doc st (connection_set # rest) =
     (case process_set ex doc st connection_set of
        Inl x \<Rightarrow> Inl x
      | Inr st1 \<Rightarrow> process_sets ex doc st1 rest)"

text \<open>
  \<open>parse(yaml_input, return_types='harness')\<close>: a fresh harness and fresh dictionaries,
  the connection sets in order, then the freestanding BOM lines. The result is the
  harness, or the exception that ended the call.
\<close>

definition parse :: "(pinspec \<Rightarrow> error + pyv list) \<Rightarrow> 'q document \<Rightarrow> error + 'q harness" where
  "parse ex doc =
     (case process_sets ex doc \<lparr>p_harness = Harness_init, p_res = init_res_state\<rparr>
             (doc_connections doc) of
        Inl (e, st) \<Rightarrow> Inl e
      | Inr st \<Rightarrow> Inr (fold (\<lambda>line h. add_bom_item h line) (doc_additional_bom_items doc)
                         (p_harness st)))"

section \<open>The bill of materials (\<open>Harness.bom\<close>)\<close>

text \<open>
  What \<open>bom\<close> calls and the sources do not hold, taken as parameters:
  \<^item> \<open>clean_str\<close>: \<open>wv_helper.clean_whitespace\<close> on a string (the specification: text
    fields are whitespace-collapsed; other values pass unchanged);
  \<^item> \<open>index_if_list\<close>: \<open>wv_helper.index_if_list\<close>;
  \<^item> \<open>connector_qty_multiplier\<close>, \<open>cable_qty_multiplier\<close>: the method
    \<open>get_qty_multiplier\<close> of \<open>Connector\<close> and of \<open>Cable\<close>;
  and Python's arithmetic on the quantities, which may be floats:
  \<^item> \<open>round3\<close>: the built-in \<open>round(x, 3)\<close>;
  \<^item> \<open>str_num\<close>: the text an f-string prints for a number.
\<close>

record 'q env =
  clean_str :: "string \<Rightarrow> string"
  index_if_list :: "pyfield \<Rightarrow> nat \<Rightarrow> pyfield"
  connector_qty_multiplier :: "'q connector \<Rightarrow> string option \<Rightarrow> 'q"
  cable_qty_multiplier :: "'q cable \<Rightarrow> string option \<Rightarrow> 'q"
  round3 :: "'q \<Rightarrow> 'q"
  str_num :: "'q \<Rightarrow> string"



text \<open>The f-string pieces: \<open>f', {x}' if x else ''\<close> and \<open>f'{x}'\<close> for a string or \<open>None\<close>.\<close>

definition if_truthy :: "string \<Rightarrow> string option \<Rightarrow> string" where
  "if_truthy sep x = (case x of None \<Rightarrow> [] | Some s \<Rightarrow> if s = [] then [] else sep @ s)"

definition str_opt :: "string option \<Rightarrow> string" where
  "str_opt x = (case x of None \<Rightarrow> ''None'' | Some s \<Rightarrow> s)"

definition truthy_num :: "'q::zero option \<Rightarrow> bool" where
  "truthy_num g = (case g of None \<Rightarrow> False | Some x \<Rightarrow> x \<noteq> 0)"

definition truthy_shield :: "shield \<Rightarrow> bool" where
  "truthy_shield s = (case s of ShieldFlag b \<Rightarrow> b | ShieldColor c \<Rightarrow> c \<noteq> [])"

definition name_if_shown :: "bool \<Rightarrow> string \<Rightarrow> pyfield" where
  "name_if_shown show_name name = (if show_name then FStr name else FNone)"

text \<open>
  \<open>get_additional_component_bom\<close>, for a component given by its additional components,
  its \<open>get_qty_multiplier\<close>, its name and its \<open>show_name\<close>.
\<close>

definition get_additional_component_bom ::
  "'q::times additional_component list \<Rightarrow> (string option \<Rightarrow> 'q) \<Rightarrow> string \<Rightarrow> bool
     \<Rightarrow> 'q bom_entry list" where
  "get_additional_component_bom parts get_qty_multiplier name show_name =
     map (\<lambda>part.
            \<lparr>item = ac_description part,
             qty = ac_qty part * get_qty_multiplier (ac_qty_multiplier part),
             unit = ac_unit part,
             designators = name_if_shown show_name name,
             manufacturer = ac_manufacturer part,
             mpn = ac_mpn part,
             pn = ac_pn part\<rparr>) parts"

definition connector_bom_entries ::
  "'q::{times,one} env \<Rightarrow> 'q connector \<Rightarrow> 'q bom_entry list" where
  "connector_bom_entries env connector =
     (if \<not> c_ignore_in_bom connector then
        [\<lparr>item = ''Connector''
                  @ if_truthy '', '' (c_type connector)
                  @ if_truthy '', '' (c_subtype connector)
                  @ (if c_show_pincount connector
                     then '', '' @ str_nat (c_pincount connector) @ '' pins'' else [])
                  @ if_truthy '', '' (c_color connector),
          qty = 1,
          unit = None,
          designators = name_if_shown (c_show_name connector) (c_name connector),
          manufacturer = c_manufacturer connector,
          mpn = c_mpn connector,
          pn = c_pn connector\<rparr>]
      else [])
     @ get_additional_component_bom (c_additional_components connector)
         (connector_qty_multiplier env connector) (c_name connector) (c_show_name connector)"

definition cable_bom_entries ::
  "'q::{times,zero} env \<Rightarrow> 'q cable \<Rightarrow> 'q bom_entry list" where
  "cable_bom_entries env cable =
     (if \<not> w_ignore_in_bom cable then
        (if w_category cable \<noteq> Some ''bundle'' then
           [\<lparr>item = ''Cable''
                     @ if_truthy '', '' (w_type cable)
                     @ '', '' @ str_nat (w_wirecount cable)
                     @ (if truthy_num (w_gauge cable)
                        then '' x '' @ str_num env (the (w_gauge cable)) @ '' ''
                             @ str_opt (w_gauge_unit cable)
                        else '' wires'')
                     @ (if truthy_shield (w_shield cable) then '' shielded'' else []),
             qty = w_length cable,
             unit = Some ''m'',
             designators = name_if_shown (w_show_name cable) (w_name cable),
             manufacturer = w_manufacturer cable,
             mpn = w_mpn cable,
             pn = w_pn cable\<rparr>]
         else
           map (\<lambda>(index, color).
                  \<lparr>item = ''Wire''
                          @ if_truthy '', '' (w_type cable)
                          @ (if truthy_num (w_gauge cable)
                             then '', '' @ str_num env (the (w_gauge cable)) @ '' ''
                                  @ str_opt (w_gauge_unit cable)
                             else [])
                          @ (if color \<noteq> [] then '', '' @ color else []),
                   qty = w_length cable,
                   unit = Some ''m'',
                   designators = name_if_shown (w_show_name cable) (w_name cable),
                   manufacturer = index_if_list env (w_manufacturer cable) index,
                   mpn = index_if_list env (w_mpn cable) index,
                   pn = index_if_list env (w_pn cable) index\<rparr>)
             (zip [0..<length (w_colors cable)] (w_colors cable)))
      else [])
     @ get_additional_component_bom (w_additional_components cable)
         (cable_qty_multiplier env cable) (w_name cable) (w_show_name cable)"

definition item_bom_entry :: "'q::one bom_item \<Rightarrow> 'q bom_entry" where
  "item_bom_entry it =
     \<lparr>item = (case bi_description it of None \<Rightarrow> [] | Some d \<Rightarrow> d),
      qty = (case bi_qty it of None \<Rightarrow> 1 | Some q \<Rightarrow> q),
      unit = bi_unit it,
      designators = bi_designators it,
      manufacturer = bi_manufacturer it,
      mpn = bi_mpn it,
      pn = bi_pn it\<rparr>"

text \<open>\<open>clean_whitespace\<close> on every value of an entry: strings are cleaned, the rest passes.\<close>

definition clean_field :: "'q env \<Rightarrow> pyfield \<Rightarrow> pyfield" where
  "clean_field env f = (case f of FStr s \<Rightarrow> FStr (clean_str env s) | _ \<Rightarrow> f)"

definition clean_entry :: "'q env \<Rightarrow> 'q bom_entry \<Rightarrow> 'q bom_entry" where
  "clean_entry env e =
     \<lparr>item = clean_str env (item e),
      qty = qty e,
      unit = map_option (clean_str env) (unit e),
      designators = clean_field env (designators e),
      manufacturer = clean_field env (manufacturer e),
      mpn = clean_field env (mpn e),
      pn = clean_field env (pn e)\<rparr>"

text \<open>The list \<open>bom_entries\<close> when the deduplication starts.\<close>

definition bom_entries :: "'q::{times,zero,one} env \<Rightarrow> 'q harness \<Rightarrow> 'q bom_entry list" where
  "bom_entries env h =
     map (clean_entry env)
       (concat (map (\<lambda>(name, connector). connector_bom_entries env connector) (connectors h))
        @ concat (map (\<lambda>(name, cable). cable_bom_entries env cable) (cables h))
        @ map item_bom_entry (additional_bom_items h))"

text \<open>
  The grouping key \<open>bom_types_group\<close>. \<open>Counter\<close> hashes the keys, and a tuple that holds
  a list is not hashable: \<open>TypeError\<close>.
\<close>

type_synonym bom_key = "string \<times> string option \<times> pyfield \<times> pyfield \<times> pyfield"

definition bom_types_group :: "('q, 'a) bom_entry_scheme \<Rightarrow> bom_key" where
  "bom_types_group bt = (item bt, unit bt, manufacturer bt, mpn bt, pn bt)"

fun is_list :: "pyfield \<Rightarrow> bool" where
  "is_list (FList l) = True"
| "is_list f = False"

definition hashable :: "bom_key \<Rightarrow> bool" where
  "hashable k =
     (case k of (i, u, m, mp, p) \<Rightarrow> \<not> is_list m \<and> \<not> is_list mp \<and> \<not> is_list p)"

text \<open>The designators one entry contributes: a list extends, a string is appended.\<close>

definition entry_designators :: "'q bom_entry \<Rightarrow> string list" where
  "entry_designators e =
     (case designators e of
        FNone \<Rightarrow> []
      | FStr s \<Rightarrow> if s = [] then [] else [s]
      | FList l \<Rightarrow> l)"

text \<open>The row of one group: the body of the loop over \<open>Counter(...)\<close>.\<close>

definition group_row :: "'q::{plus,zero} env \<Rightarrow> 'q bom_entry list \<Rightarrow> bom_key \<Rightarrow> 'q bom_entry" where
  "group_row env entries grp =
     (let group_entries = filter (\<lambda>v. bom_types_group v = grp) entries;
          ds = sort (dict_fromkeys (concat (map entry_designators group_entries)));
          total_qty = foldl (+) 0 (map qty group_entries)
      in (hd group_entries)\<lparr>qty := round3 env total_qty, designators := FList ds\<rparr>)"

definition add_id :: "nat \<times> 'q bom_entry \<Rightarrow> 'q bom_row" where
  "add_id p =
     (case p of (index, e) \<Rightarrow>
        \<lparr>item = item e, qty = qty e, unit = unit e, designators = designators e,
         manufacturer = manufacturer e, mpn = mpn e, pn = pn e, row_id = index\<rparr>)"

text \<open>\<open>enumerate(xs, 1)\<close>.\<close>

definition enumerate1 :: "'a list \<Rightarrow> (nat \<times> 'a) list" where
  "enumerate1 xs = zip [1..<Suc (length xs)] xs"

text \<open>
  The list \<open>self._bom\<close> after the deduplication loop (one row per key, in the order in
  which \<open>Counter\<close> yields the keys), after the sort by \<open>item\<close> (Python's sort is stable),
  and with the ids.
\<close>

definition bom_groups :: "'q::{plus,zero} env \<Rightarrow> 'q bom_entry list \<Rightarrow> 'q bom_entry list" where
  "bom_groups env entries =
     map (group_row env entries) (dict_fromkeys (map bom_types_group entries))"

definition sorted_groups :: "'q::{plus,zero} env \<Rightarrow> 'q bom_entry list \<Rightarrow> 'q bom_entry list" where
  "sorted_groups env entries = sort_key item (bom_groups env entries)"

definition bom_rows :: "'q::{plus,zero} env \<Rightarrow> 'q bom_entry list \<Rightarrow> 'q bom_row list" where
  "bom_rows env entries = map add_id (enumerate1 (sorted_groups env entries))"

text \<open>
  \<open>Harness.bom\<close>: the cache \<open>self._bom\<close> when it is not empty, else the computation, whose
  result is stored in the cache. A raise is \<open>Inl (e, h)\<close> with the harness at the raise.
\<close>

definition bom ::
  "'q::{times,plus,zero,one} env \<Rightarrow> 'q harness
     \<Rightarrow> error \<times> 'q harness + 'q bom_row list \<times> 'q harness" where
  "bom env h =
     (if bom_cache h \<noteq> [] then Inr (bom_cache h, h)
      else
        (let entries = bom_entries env h in
         if \<not> list_all hashable (map bom_types_group entries) then Inl (TypeError, h)
         else (let rows = bom_rows env entries in Inr (rows, h\<lparr>bom_cache := rows\<rparr>))))"

text \<open>\<open>Harness.get_bom_index\<close>: the id of the row with the given (cleaned) key, if any.\<close>

definition get_bom_index ::
  "'q::{times,plus,zero,one} env \<Rightarrow> 'q harness \<Rightarrow> string \<Rightarrow> string option \<Rightarrow> pyfield
     \<Rightarrow> pyfield \<Rightarrow> pyfield \<Rightarrow> error \<times> 'q harness + nat option \<times> 'q harness" where
  "get_bom_index env h it un man mp p =
     (let target = (clean_str env it, map_option (clean_str env) un, clean_field env man,
                    clean_field env mp, clean_field env p)
      in case bom env h of
           Inl x \<Rightarrow> Inl x
         | Inr (rows, h1) \<Rightarrow>
             Inr (map_option row_id (find (\<lambda>entry. bom_types_group entry = target) rows), h1))"

section \<open>Pin resolution in the words of the specification\<close>

text \<open>
  Section 4.3 of the specification, read with the order of the checks made explicit, as a
  function of one connector and one pin token; \<open>Harness.connect\<close> is compared with it below.
  A token that is both a pin and a label at different positions is ambiguous; else a token
  that is a label more than once is a duplicate; else a token that is a label exactly once
  is replaced by the pin at the position of the label; else the token stands for itself
  and must be a pin.
\<close>

definition resolve_pin_spec :: "string \<Rightarrow> 'q connector \<Rightarrow> pyv \<Rightarrow> error + pyv" where
  "resolve_pin_spec nm c pin =
     (if pin \<in> set (c_pins c) \<and> pin \<in> set (c_pinlabels c)
         \<and> index_of (c_pins c) pin \<noteq> index_of (c_pinlabels c) pin
      then Inl (AmbiguousPinReference nm pin)
      else if count_list (c_pinlabels c) pin > 1 then Inl (DuplicatePinLabel nm pin)
      else if count_list (c_pinlabels c) pin = 1 then
        (if index_of (c_pinlabels c) pin < length (c_pins c)
         then Inr (c_pins c ! index_of (c_pinlabels c) pin)
         else Inl IndexError)
      else if pin \<in> set (c_pins c) then Inr pin
      else Inl (UnknownPin nm pin))"

text \<open>An end of the connection that is open, or names no connector, is not checked.\<close>

definition resolve_side_spec :: "'q harness \<Rightarrow> string option \<Rightarrow> pyv \<Rightarrow> error + pyv" where
  "resolve_side_spec h name pin =
     (case name of
        None \<Rightarrow> Inr pin
      | Some nm \<Rightarrow>
          (case map_of (connectors h) nm of
             None \<Rightarrow> Inr pin
           | Some c \<Rightarrow> resolve_pin_spec nm c pin))"

text \<open>
  The connect operation: the from end is resolved, then the to end, then the cable gets
  the connection record with the two resolved pins; an error leaves the harness as it was.
\<close>

definition connect_spec ::
  "'q harness \<Rightarrow> string option \<Rightarrow> pyv \<Rightarrow> string \<Rightarrow> pyv \<Rightarrow> string option \<Rightarrow> pyv
     \<Rightarrow> error \<times> 'q harness + 'q harness" where
  "connect_spec h fname fpin via_name via_pin tname tpin =
     (case resolve_side_spec h fname fpin of
        Inl e \<Rightarrow> Inl (e, h)
      | Inr p1 \<Rightarrow>
          (case resolve_side_spec h tname tpin of
             Inl e \<Rightarrow> Inl (e, h)
           | Inr p2 \<Rightarrow>
               (case map_of (cables h) via_name of
                  None \<Rightarrow> Inl (KeyError via_name, h)
                | Some cable \<Rightarrow>
                    Inr (h\<lparr>cables :=
                           AList.update via_name
                             (cable_connect cable fname p1 via_pin tname p2) (cables h)\<rparr>))))"

section \<open>Concrete inputs\<close>

text \<open>
  The attribute sets and harnesses of the scenarios below. A connector with nothing but
  pins and pin labels, and a cable with nothing but a wire count.
\<close>

definition plain_connector :: "pyv list \<Rightarrow> pyv list \<Rightarrow> int connector" where
  "plain_connector ps ls =
     \<lparr>c_name = [], c_pins = ps, c_pinlabels = ls, c_type = None, c_subtype = None,
      c_pincount = length ps, c_show_pincount = True, c_color = None,
      c_manufacturer = FNone, c_mpn = FNone, c_pn = FNone, c_show_name = True,
      c_ignore_in_bom = False, c_additional_components = []\<rparr>"

definition plain_cable :: "nat \<Rightarrow> int cable" where
  "plain_cable n =
     \<lparr>w_name = [], w_connections = [], w_category = None, w_type = None, w_wirecount = n,
      w_gauge = None, w_gauge_unit = None, w_shield = ShieldFlag False, w_length = 0,
      w_colors = replicate n [], w_manufacturer = FNone, w_mpn = FNone, w_pn = FNone,
      w_show_name = True, w_ignore_in_bom = False, w_additional_components = []\<rparr>"

text \<open>
  The harness of the pin-label scenario: the connector \<open>X\<close> with pins \<open>[1, 2]\<close> and pin
  labels \<open>["A", "1"]\<close>, and the cable \<open>W\<close>. In \<open>label_harness_str\<close> the pins are the
  strings \<open>["1", "2"]\<close> instead; in \<open>label_harness_int\<close> the second label is the integer
  \<open>1\<close> instead (what YAML reads from an unquoted \<open>1\<close>).
\<close>

definition label_harness :: "int harness" where
  "label_harness =
     add_cable
       (add_connector Harness_init ''X''
          (plain_connector [PInt 1, PInt 2] [PStr ''A'', PStr ''1'']))
       ''W'' (plain_cable 2)"

definition label_harness_int :: "int harness" where
  "label_harness_int =
     add_cable
       (add_connector Harness_init ''X''
          (plain_connector [PInt 1, PInt 2] [PStr ''A'', PInt 1]))
       ''W'' (plain_cable 2)"

definition label_harness_str :: "int harness" where
  "label_harness_str =
     add_cable
       (add_connector Harness_init ''X''
          (plain_connector [PStr ''1'', PStr ''2''] [PStr ''A'', PStr ''1'']))
       ''W'' (plain_cable 2)"

text \<open>
  The documents of the end-to-end scenario: the connector template \<open>X1\<close> with pins
  \<open>[1, 2]\<close>, the cable template \<open>W1\<close> with two wires, and one connection set.
\<close>

definition scenario_doc :: "entry list \<Rightarrow> int document" where
  "scenario_doc connection_set =
     \<lparr>doc_connectors = [(''X1'', plain_connector [PInt 1, PInt 2] [])],
      doc_cables = [(''W1'', plain_cable 2)],
      doc_connections = [connection_set],
      doc_additional_bom_items = []\<rparr>"

text \<open>
  \<open>[X1, {W1: '1-2'}, X1.X2]\<close>: the pin range on the cable only, and \<open>X2\<close> an instance of
  the template \<open>X1\<close>.
\<close>

definition set_bare :: "entry list" where
  "set_bare = [EStr ''X1'', EDict [(''W1'', PScalar (PStr ''1-2''))], EStr ''X1.X2'']"

text \<open>\<open>[X1, {W1: '1-2'}, X2]\<close>: the same with the bare token \<open>X2\<close>.\<close>

definition set_bare_X2 :: "entry list" where
  "set_bare_X2 = [EStr ''X1'', EDict [(''W1'', PScalar (PStr ''1-2''))], EStr ''X2'']"

text \<open>\<open>[{X1: '1-2'}, {W1: '1-2'}, {X1.X2: '1-2'}]\<close>: the pin range on every entry.\<close>

definition set_ranges :: "entry list" where
  "set_ranges =
     [EDict [(''X1'', PScalar (PStr ''1-2''))], EDict [(''W1'', PScalar (PStr ''1-2''))],
      EDict [(''X1.X2'', PScalar (PStr ''1-2''))]]"

text \<open>\<open>[[], [X1, X1]]\<close>: an empty list entry beside a list of two designators.\<close>

definition set_empty_entry :: "entry list" where
  "set_empty_entry = [EList [], EList [''X1'', ''X1'']]"

text \<open>
  An environment for quantities that are integers: strings are taken as clean,
  \<open>index_if_list\<close> picks the element of a list, every quantity multiplier is \<open>1\<close>, and
  \<open>round(n, 3)\<close> of an integer is the integer.
\<close>

definition plain_env :: "int env" where
  "plain_env =
     \<lparr>clean_str = (\<lambda>s. s),
      index_if_list = (\<lambda>f i. case f of
                                FList l \<Rightarrow> if i < length l then FStr (l ! i) else FNone
                              | _ \<Rightarrow> f),
      connector_qty_multiplier = (\<lambda>c m. 1),
      cable_qty_multiplier = (\<lambda>c m. 1),
      round3 = (\<lambda>x. x),
      str_num = (\<lambda>x. str_nat (nat x))\<rparr>"

text \<open>
  Two connectors of one pin that differ in their part number only, declared in either
  order, and a harness of two equal connectors and a cable.
\<close>

definition pn_connector :: "string \<Rightarrow> int connector" where
  "pn_connector p = (plain_connector [PInt 1] [])\<lparr>c_pn := FStr p\<rparr>"

definition harness_AB :: "int harness" where
  "harness_AB =
     add_connector (add_connector Harness_init ''X1'' (pn_connector ''A''))
       ''X2'' (pn_connector ''B'')"

definition harness_BA :: "int harness" where
  "harness_BA =
     add_connector (add_connector Harness_init ''X2'' (pn_connector ''B''))
       ''X1'' (pn_connector ''A'')"

definition harness_XXW :: "int harness" where
  "harness_XXW =
     add_cable
       (add_connector (add_connector Harness_init ''X1'' (plain_connector [PInt 1, PInt 2] []))
          ''X2'' (plain_connector [PInt 1, PInt 2] []))
       ''W1'' ((plain_cable 2)\<lparr>w_length := 3\<rparr>)"

text \<open>The same harness with the two connectors declared in the other order.\<close>

definition harness_WXX :: "int harness" where
  "harness_WXX =
     add_connector
       (add_connector (add_cable Harness_init ''W1'' ((plain_cable 2)\<lparr>w_length := 3\<rparr>))
          ''X2'' (plain_connector [PInt 1, PInt 2] []))
       ''X1'' (plain_connector [PInt 1, PInt 2] [])"

text \<open>The bill of materials of both.\<close>

definition rows_XXW :: "int bom_row list" where
  "rows_XXW =
     [\<lparr>item = ''Cable, 2 wires'', qty = 3, unit = Some ''m'', designators = FList [''W1''],
       manufacturer = FNone, mpn = FNone, pn = FNone, row_id = 1\<rparr>,
      \<lparr>item = ''Connector, 2 pins'', qty = 2, unit = None,
       designators = FList [''X1'', ''X2''], manufacturer = FNone, mpn = FNone, pn = FNone,
       row_id = 2\<rparr>]"






text \<open>
  The rows of the bill of materials of a document: \<open>parse\<close>, then \<open>bom\<close> on the harness
  it returns.
\<close>

definition parse_bom ::
  "(pinspec \<Rightarrow> error + pyv list) \<Rightarrow> 'q::{times,plus,zero,one} env \<Rightarrow> 'q document
     \<Rightarrow> error + 'q bom_row list" where
  "parse_bom ex env doc =
     (case parse ex doc of
        Inl e \<Rightarrow> Inl e
      | Inr h \<Rightarrow> (case bom env h of Inl (e, h1) \<Rightarrow> Inl e | Inr (rows, h1) \<Rightarrow> Inr rows))"

text \<open>
  Documents with the connector templates \<open>A\<close> and \<open>B\<close> (the part numbers \<open>A\<close> and \<open>B\<close>),
  declared in the order given by \<open>templates\<close>, and the connection sets \<open>[[A.X1]]\<close> and
  \<open>[[B.X2]]\<close> in either order.
\<close>

definition pn_doc :: "string list \<Rightarrow> entry list list \<Rightarrow> int document" where
  "pn_doc templates sets =
     \<lparr>doc_connectors = map (\<lambda>t. (t, pn_connector t)) templates,
      doc_cables = [],
      doc_connections = sets,
      doc_additional_bom_items = []\<rparr>"

definition sets_X1_X2 :: "entry list list" where
  "sets_X1_X2 = [[EList [''A.X1'']], [EList [''B.X2'']]]"

definition sets_X2_X1 :: "entry list list" where
  "sets_X2_X1 = [[EList [''B.X2'']], [EList [''A.X1'']]]"

text \<open>The connection records of a cable of a harness.\<close>

definition connections_of :: "'q harness \<Rightarrow> string \<Rightarrow> connection list" where
  "connections_of h name = (case map_of (cables h) name of None \<Rightarrow> [] | Some c \<Rightarrow> w_connections c)"

section \<open>Properties of the designator resolution\<close>

lemma split_on_nonempty: "split_on c s \<noteq> []"
  by (induction s) (auto split: list.splits)

lemma split_on_absent: "c \<notin> set s \<Longrightarrow> split_on c s = [s]"
  by (induction s) auto

lemma split_on_first: "c \<notin> set a \<Longrightarrow> split_on c (a @ c # b) = a # split_on c b"
  by (induction a) (auto split: list.splits)

lemma split_on_two: "c \<notin> set a \<Longrightarrow> c \<notin> set b \<Longrightarrow> split_on c (a @ c # b) = [a, b]"
  by (simp add: split_on_first split_on_absent)

lemma split_on_single: "split_on c s = [b] \<Longrightarrow> c \<notin> set s \<and> s = b"
  by (induction s arbitrary: b) (auto split: list.splits if_splits simp: split_on_nonempty)

lemma split_on_two_conv:
  "split_on c s = [a, b] \<Longrightarrow> s = a @ c # b \<and> c \<notin> set a \<and> c \<notin> set b"
proof (induction s arbitrary: a)
  case Nil
  then show ?case by simp
next
  case (Cons x xs)
  show ?case
  proof (cases "x = c")
    case True
    with Cons.prems have a: "a = []" and "split_on c xs = [b]" by auto
    from split_on_single[OF this(2)] have "c \<notin> set xs" and "xs = b" by blast+
    then show ?thesis using True a by simp
  next
    case False
    then show ?thesis using Cons by (auto split: list.splits)
  qed
qed

lemma get_count_update:
  "get_count (AList.update k v d) x = (if x = k then v else get_count d x)"
  by (simp add: get_count_def update_conv')

lemma resolve_auto:
  assumes "CHR ''.'' \<notin> set X"
  shows "resolve_designator st (X @ ''.'') =
     (let n = Suc (get_count (autogenerated_designators st) X);
          st1 = st\<lparr>autogenerated_designators := AList.update X n (autogenerated_designators st)\<rparr>
      in case map_of (designators_and_templates st) (auto_name X n) of
           Some t \<Rightarrow> if t \<noteq> X then Inl (DesignatorConflict (auto_name X n) t X, st1)
                     else Inr ((X, auto_name X n), st1)
         | None \<Rightarrow> Inr ((X, auto_name X n),
              st1\<lparr>designators_and_templates :=
                   AList.update (auto_name X n) X (designators_and_templates st)\<rparr>))"
  using assms split_on_two[of "CHR ''.''" X "[]"]
  by (simp add: resolve_designator_def Let_def split: option.splits)

lemma resolve_dotted:
  assumes "CHR ''.'' \<notin> set T" "CHR ''.'' \<notin> set D" "D \<noteq> []"
  shows "resolve_designator st (T @ CHR ''.'' # D) =
     (case map_of (designators_and_templates st) D of
           Some t \<Rightarrow> if t \<noteq> T then Inl (DesignatorConflict D t T, st)
                     else Inr ((T, D), st)
         | None \<Rightarrow> Inr ((T, D),
              st\<lparr>designators_and_templates := AList.update D T (designators_and_templates st)\<rparr>))"
  using assms split_on_two[of "CHR ''.''" T D]
  by (simp add: resolve_designator_def Let_def split: option.splits)

lemma resolve_bare:
  assumes "CHR ''.'' \<notin> set D"
  shows "resolve_designator st D =
     (case map_of (designators_and_templates st) D of
           Some t \<Rightarrow> Inr ((D, D), st)
         | None \<Rightarrow> Inr ((D, D),
              st\<lparr>designators_and_templates := AList.update D D (designators_and_templates st)\<rparr>))"
  using assms by (simp add: resolve_designator_def Let_def split: option.splits)

lemma resolve_count:
  assumes "resolve_designator st inp = Inr (td, st')" and "CHR ''.'' \<notin> set X"
  shows "get_count (autogenerated_designators st') X =
         get_count (autogenerated_designators st) X + (if inp = X @ ''.'' then 1 else 0)"
proof (cases "CHR ''.'' \<in> set inp")
  case False
  then have "inp \<noteq> X @ ''.''" by auto
  with False assms show ?thesis
    by (auto simp: resolve_designator_def Let_def split: option.splits)
next
  case True
  show ?thesis
  proof (cases "\<exists>t d. split_on CHR ''.'' inp = [t, d]")
    case False
    with True assms(1) show ?thesis
      by (auto simp: resolve_designator_def split: list.splits)
  next
    case True
    then obtain t d where sp: "split_on CHR ''.'' inp = [t, d]" by blast
    then have inp: "inp = t @ CHR ''.'' # d" and nt: "CHR ''.'' \<notin> set t" and nd: "CHR ''.'' \<notin> set d"
      using split_on_two_conv by blast+
    show ?thesis
    proof (cases "d = []")
      case True
      then have "inp = t @ ''.''" using inp by simp
      moreover have "(inp = X @ ''.'') = (X = t)" using \<open>inp = t @ ''.''\<close> by auto
      ultimately show ?thesis using assms(1) nt
        by (auto simp: resolve_auto Let_def get_count_update split: option.splits if_splits)
    next
      case False
      have "inp \<noteq> X @ ''.''"
      proof
        assume "inp = X @ ''.''"
        then have "split_on CHR ''.'' inp = [X, []]" using split_on_two[of "CHR ''.''" X "[]"] assms(2) by simp
        with sp False show False by simp
      qed
      then show ?thesis using assms(1) nt nd False inp
        by (auto simp: resolve_dotted split: option.splits if_splits)
    qed
  qed
qed

lemma resolve_all_count:
  assumes "resolve_all st pre = Inr (tds, st')" and "CHR ''.'' \<notin> set X"
  shows "get_count (autogenerated_designators st') X =
         get_count (autogenerated_designators st) X + count_list pre (X @ ''.'')"
  using assms
proof (induction pre arbitrary: st tds)
  case Nil
  then show ?case by simp
next
  case (Cons inp pre)
  from Cons.prems(1) obtain td st1 tds1 where
    a: "resolve_designator st inp = Inr (td, st1)" and b: "resolve_all st1 pre = Inr (tds1, st')"
    by (auto split: sum.splits)
  show ?case using resolve_count[OF a Cons.prems(2)] Cons.IH[OF b Cons.prems(2)] by simp
qed

lemma str_nat_1: "str_nat (Suc 0) = ''1''" and str_nat_2: "str_nat (Suc (Suc 0)) = ''2''"
  by (simp_all add: str_nat.simps digit_char_def)

text \<open>
  Claim C5. Auto-generated designators are numbered per template. In a resolution pass that
  has resolved the tokens \<open>pre\<close> (from empty dictionaries), let \<open>n\<close> be one more than the
  number of earlier occurrences of the token \<open>X.\<close>. Resolving \<open>X.\<close> now generates the
  designator \<open>_X_n\<close>: the call returns \<open>(X, _X_n)\<close> and leaves the counter of \<open>X\<close> at
  \<open>n\<close>; tokens of other templates in \<open>pre\<close> do not count. The only way the call can raise
  is the conflict check on that very name (\<open>_X_n\<close> written by hand for another template).
  In particular the first two auto-designators of \<open>X\<close> are \<open>_X_1\<close> and \<open>_X_2\<close>.
\<close>

theorem auto_designator_nth:
  assumes "CHR ''.'' \<notin> set X"
    and "resolve_all init_res_state pre = Inr (tds, st)"
    and "n = Suc (count_list pre (X @ ''.''))"
  shows "(case resolve_designator st (X @ ''.'') of
            Inr ((t, d), st') \<Rightarrow>
              t = X \<and> d = ''_'' @ X @ ''_'' @ str_nat n
              \<and> get_count (autogenerated_designators st') X = n
          | Inl (e, st') \<Rightarrow>
              \<exists>old. old \<noteq> X
                \<and> map_of (designators_and_templates st) (''_'' @ X @ ''_'' @ str_nat n) = Some old
                \<and> e = DesignatorConflict (''_'' @ X @ ''_'' @ str_nat n) old X)
       \<and> resolve_all init_res_state [X @ ''.'', X @ ''.''] =
           Inr ([(X, ''_'' @ X @ ''_1''), (X, ''_'' @ X @ ''_2'')],
                \<lparr>designators_and_templates = [(''_'' @ X @ ''_1'', X), (''_'' @ X @ ''_2'', X)],
                 autogenerated_designators = [(X, 2)]\<rparr>)"
proof
  have "get_count (autogenerated_designators st) X = count_list pre (X @ ''.'')"
    using resolve_all_count[OF assms(2) assms(1)] by (simp add: init_res_state_def get_count_def)
  then have n: "Suc (get_count (autogenerated_designators st) X) = n"
    using assms(3) by simp
  show "case resolve_designator st (X @ ''.'') of
            Inr ((t, d), st') \<Rightarrow>
              t = X \<and> d = ''_'' @ X @ ''_'' @ str_nat n
              \<and> get_count (autogenerated_designators st') X = n
          | Inl (e, st') \<Rightarrow>
              \<exists>old. old \<noteq> X
                \<and> map_of (designators_and_templates st) (''_'' @ X @ ''_'' @ str_nat n) = Some old
                \<and> e = DesignatorConflict (''_'' @ X @ ''_'' @ str_nat n) old X"
    unfolding resolve_auto[OF assms(1)] Let_def n
    by (simp add: auto_name_def get_count_update split: option.splits)
next
  show "resolve_all init_res_state [X @ ''.'', X @ ''.''] =
           Inr ([(X, ''_'' @ X @ ''_1''), (X, ''_'' @ X @ ''_2'')],
                \<lparr>designators_and_templates = [(''_'' @ X @ ''_1'', X), (''_'' @ X @ ''_2'', X)],
                 autogenerated_designators = [(X, 2)]\<rparr>)"
    by (simp add: resolve_auto[OF assms(1)] init_res_state_def Let_def get_count_def auto_name_def
        str_nat_1 str_nat_2)
qed

theorem auto_designator_nth_witness:
  "resolve_all init_res_state [''X.'', ''Y.'', ''X.''] =
     Inr ([(''X'', ''_X_1''), (''Y'', ''_Y_1''), (''X'', ''_X_2'')],
          \<lparr>designators_and_templates = [(''_X_1'', ''X''), (''_Y_1'', ''Y''), (''_X_2'', ''X'')],
           autogenerated_designators = [(''X'', 2), (''Y'', 1)]\<rparr>)
   \<and> resolve_designator
         \<lparr>designators_and_templates = [(''_X_1'', ''X''), (''_Y_1'', ''Y''), (''_X_2'', ''X'')],
          autogenerated_designators = [(''X'', 2), (''Y'', 1)]\<rparr> ''X.'' =
       Inr ((''X'', ''_X_3''),
         \<lparr>designators_and_templates =
            [(''_X_1'', ''X''), (''_Y_1'', ''Y''), (''_X_2'', ''X''), (''_X_3'', ''X'')],
          autogenerated_designators = [(''X'', 3), (''Y'', 1)]\<rparr>)
   \<and> resolve_all init_res_state [''X.'', ''X.''] =
       Inr ([(''X'', ''_X_1''), (''X'', ''_X_2'')],
            \<lparr>designators_and_templates = [(''_X_1'', ''X''), (''_X_2'', ''X'')],
             autogenerated_designators = [(''X'', 2)]\<rparr>)"
proof -
  have nodot: "CHR ''.'' \<notin> set ''X''" by simp
  have pass: "resolve_all init_res_state [''X.'', ''Y.'', ''X.''] =
     Inr ([(''X'', ''_X_1''), (''Y'', ''_Y_1''), (''X'', ''_X_2'')],
          \<lparr>designators_and_templates = [(''_X_1'', ''X''), (''_Y_1'', ''Y''), (''_X_2'', ''X'')],
           autogenerated_designators = [(''X'', 2), (''Y'', 1)]\<rparr>)"
    by code_simp
  have n: "(3::nat) = Suc (count_list [''X.'', ''Y.'', ''X.''] (''X'' @ ''.''))" by simp
  have third: "resolve_designator
         \<lparr>designators_and_templates = [(''_X_1'', ''X''), (''_Y_1'', ''Y''), (''_X_2'', ''X'')],
          autogenerated_designators = [(''X'', 2), (''Y'', 1)]\<rparr> ''X.'' =
       Inr ((''X'', ''_X_3''),
         \<lparr>designators_and_templates =
            [(''_X_1'', ''X''), (''_Y_1'', ''Y''), (''_X_2'', ''X''), (''_X_3'', ''X'')],
          autogenerated_designators = [(''X'', 3), (''Y'', 1)]\<rparr>)"
    by code_simp
  show ?thesis
    using auto_designator_nth[OF nodot pass n] pass third
    by simp
qed

lemma resolve_idem:
  assumes "resolve_designator st tok = Inr (td, st1)" and "\<not> (\<exists>T. tok = T @ ''.'')"
  shows "resolve_designator st1 tok = Inr (td, st1)"
proof (cases "CHR ''.'' \<in> set tok")
  case False
  with assms(1) show ?thesis
    by (auto simp: resolve_bare update_conv' split: option.splits)
next
  case True
  with assms(1) obtain t d where sp: "split_on CHR ''.'' tok = [t, d]"
    by (auto simp: resolve_designator_def split: list.splits)
  then have tok: "tok = t @ CHR ''.'' # d" and nt: "CHR ''.'' \<notin> set t" and nd: "CHR ''.'' \<notin> set d"
    using split_on_two_conv by blast+
  with assms(2) have "d \<noteq> []" by auto
  with assms(1) tok nt nd show ?thesis
    by (auto simp: resolve_dotted update_conv' split: option.splits if_splits)
qed

text \<open>
  Claim C6 says that resolving an already bound designator to a different template raises
  \<open>DesignatorConflict\<close> also in the bare-token form. The bare-token branch of the source
  makes no such check (its comment: referencing an existing connector, no need to add
  again): with \<open>X2\<close> bound to the template \<open>X1\<close>, the bare token \<open>X2\<close>, whose template
  would be \<open>X2\<close>, is accepted and the binding stays.
\<close>

theorem bare_token_rebinding_counterexample:
  "resolve_all init_res_state [''X1.X2'', ''X2''] =
     Inr ([(''X1'', ''X2''), (''X2'', ''X2'')],
          \<lparr>designators_and_templates = [(''X2'', ''X1'')], autogenerated_designators = []\<rparr>)"
  by code_simp

text \<open>
  Claim C6, amended. For a token in the dotted form \<open>T.D\<close> with a designator \<open>D\<close> that is
  not empty: when \<open>D\<close> is bound to \<open>T\<close> the call returns \<open>(T, D)\<close> and changes nothing; when
  \<open>D\<close> is bound to another template \<open>T'\<close> the call raises \<open>DesignatorConflict\<close> (and
  changes nothing). A bare token \<open>D\<close> that names a bound designator is accepted as a
  reference, whatever the template of the binding: the call returns \<open>(D, D)\<close> and changes
  nothing. Any token that does not ask for an auto-generated designator and has been
  resolved once resolves again to the same result, with the dictionaries unchanged.
\<close>

theorem designator_rebinding:
  "(CHR ''.'' \<notin> set T \<longrightarrow> CHR ''.'' \<notin> set D \<longrightarrow> D \<noteq> [] \<longrightarrow>
      map_of (designators_and_templates st) D = Some T \<longrightarrow>
      resolve_designator st (T @ ''.'' @ D) = Inr ((T, D), st))
   \<and> (CHR ''.'' \<notin> set T \<longrightarrow> CHR ''.'' \<notin> set D \<longrightarrow> D \<noteq> [] \<longrightarrow>
      map_of (designators_and_templates st) D = Some T' \<longrightarrow> T' \<noteq> T \<longrightarrow>
      resolve_designator st (T @ ''.'' @ D) = Inl (DesignatorConflict D T' T, st))
   \<and> (CHR ''.'' \<notin> set D \<longrightarrow> map_of (designators_and_templates st) D = Some T' \<longrightarrow>
      resolve_designator st D = Inr ((D, D), st))
   \<and> (resolve_designator st tok = Inr (td, st1) \<longrightarrow> \<not> (\<exists>X. tok = X @ ''.'') \<longrightarrow>
      resolve_designator st1 tok = Inr (td, st1))"
  using resolve_idem[of st tok td st1]
  by (simp add: resolve_dotted resolve_bare)

theorem designator_rebinding_witness:
  "resolve_designator
      \<lparr>designators_and_templates = [(''X2'', ''X1'')], autogenerated_designators = []\<rparr> ''X1.X2'' =
     Inr ((''X1'', ''X2''),
          \<lparr>designators_and_templates = [(''X2'', ''X1'')], autogenerated_designators = []\<rparr>)
   \<and> resolve_designator
      \<lparr>designators_and_templates = [(''X2'', ''X1'')], autogenerated_designators = []\<rparr> ''W1.X2'' =
     Inl (DesignatorConflict ''X2'' ''X1'' ''W1'',
          \<lparr>designators_and_templates = [(''X2'', ''X1'')], autogenerated_designators = []\<rparr>)
   \<and> resolve_designator
      \<lparr>designators_and_templates = [(''X2'', ''X1'')], autogenerated_designators = []\<rparr> ''X2'' =
     Inr ((''X2'', ''X2''),
          \<lparr>designators_and_templates = [(''X2'', ''X1'')], autogenerated_designators = []\<rparr>)
   \<and> resolve_designator init_res_state ''X1.X2'' =
     Inr ((''X1'', ''X2''),
          \<lparr>designators_and_templates = [(''X2'', ''X1'')], autogenerated_designators = []\<rparr>)"
proof -
  have first: "resolve_designator init_res_state ''X1.X2'' =
     Inr ((''X1'', ''X2''),
          \<lparr>designators_and_templates = [(''X2'', ''X1'')], autogenerated_designators = []\<rparr>)"
    by code_simp
  have notauto: "\<not> (\<exists>X. ''X1.X2'' = X @ ''.'')"
    by (auto simp: append_eq_Cons_conv Cons_eq_append_conv)
  show ?thesis
    using designator_rebinding[of "''X1''" "''X2''"
        "\<lparr>designators_and_templates = [(''X2'', ''X1'')], autogenerated_designators = []\<rparr>"
        "''X1''" "''X1.X2''" "(''X1'', ''X2'')"
        "\<lparr>designators_and_templates = [(''X2'', ''X1'')], autogenerated_designators = []\<rparr>"]
      designator_rebinding[of "''W1''" "''X2''"
        "\<lparr>designators_and_templates = [(''X2'', ''X1'')], autogenerated_designators = []\<rparr>"
        "''X1''" "''X1.X2''" "(''X1'', ''X2'')"
        "\<lparr>designators_and_templates = [(''X2'', ''X1'')], autogenerated_designators = []\<rparr>"]
      first notauto
    by simp
qed

section \<open>Properties of \<open>Harness.connect\<close>\<close>

lemma count_list_one:
  "x \<in> set xs \<Longrightarrow> \<not> Suc 0 < count_list xs x \<Longrightarrow> count_list xs x = Suc 0"
  using count_list_0_iff[of xs x] by linarith

lemma count_list_pos: "count_list xs x = Suc 0 \<Longrightarrow> x \<in> set xs"
  using count_list_0_iff[of xs x] by auto

lemma nth_index_of: "x \<in> set xs \<Longrightarrow> xs ! index_of xs x = x"
  by (induction xs) auto

lemma index_of_less: "x \<in> set xs \<Longrightarrow> index_of xs x < length xs"
  by (induction xs) auto

lemma resolve_pin_spec_nolabel:
  "pin \<notin> set (c_pinlabels c) \<Longrightarrow>
   resolve_pin_spec nm c pin = (if pin \<in> set (c_pins c) then Inr pin else Inl (UnknownPin nm pin))"
  using count_list_0_iff[of "c_pinlabels c" pin] by (simp add: resolve_pin_spec_def)

lemma resolve_pin_spec_label:
  "pin \<in> set (c_pinlabels c) \<Longrightarrow>
   resolve_pin_spec nm c pin =
     (if pin \<in> set (c_pins c) \<and> index_of (c_pins c) pin \<noteq> index_of (c_pinlabels c) pin
      then Inl (AmbiguousPinReference nm pin)
      else if count_list (c_pinlabels c) pin > 1 then Inl (DuplicatePinLabel nm pin)
      else if index_of (c_pinlabels c) pin < length (c_pins c)
        then Inr (c_pins c ! index_of (c_pinlabels c) pin)
      else Inl IndexError)"
  using count_list_one[of pin "c_pinlabels c"] by (simp add: resolve_pin_spec_def)

lemma check_pin_conn:
  assumes "map_of (connectors h) nm = Some c"
  shows "check_pin h fname tname (Some nm) pin (fp, tp) =
     (case resolve_pin_spec nm c pin of
        Inl e \<Rightarrow> Inl e
      | Inr p \<Rightarrow>
          if pin \<in> set (c_pinlabels c)
          then Inr (if Some nm = fname then p else fp, if Some nm = tname then p else tp)
          else Inr (fp, tp))"
proof (cases "pin \<in> set (c_pinlabels c)")
  case False
  then show ?thesis using assms
    by (simp add: check_pin_def resolve_pin_spec_nolabel)
next
  case True
  then show ?thesis using assms
    by (simp add: check_pin_def resolve_pin_spec_label Let_def)
qed

lemma resolve_pin_spec_self:
  "pin \<notin> set (c_pinlabels c) \<Longrightarrow> resolve_pin_spec nm c pin = Inr p \<Longrightarrow> p = pin"
  by (simp add: resolve_pin_spec_nolabel split: if_splits)

lemma check_pin_from:
  assumes "fname \<noteq> tname \<or> fname = None"
  shows "check_pin h fname tname fname fpin (fpin, tpin) =
     (case resolve_side_spec h fname fpin of Inl e \<Rightarrow> Inl e | Inr p \<Rightarrow> Inr (p, tpin))"
proof (cases fname)
  case None
  then show ?thesis by (simp add: check_pin_def resolve_side_spec_def)
next
  case (Some nm)
  show ?thesis
  proof (cases "map_of (connectors h) nm")
    case None
    then show ?thesis using Some by (simp add: check_pin_def resolve_side_spec_def)
  next
    case (Some c)
    have ne: "Some nm \<noteq> tname" using assms \<open>fname = Some nm\<close> by auto
    show ?thesis
      using \<open>fname = Some nm\<close> Some ne resolve_pin_spec_self[of fpin c nm]
      by (auto simp: check_pin_conn[OF Some] resolve_side_spec_def split: sum.splits)
  qed
qed

lemma check_pin_to:
  assumes "fname \<noteq> tname \<or> fname = None"
  shows "check_pin h fname tname tname tpin (p1, tpin) =
     (case resolve_side_spec h tname tpin of Inl e \<Rightarrow> Inl e | Inr p \<Rightarrow> Inr (p1, p))"
proof (cases tname)
  case None
  then show ?thesis by (simp add: check_pin_def resolve_side_spec_def)
next
  case (Some nm)
  show ?thesis
  proof (cases "map_of (connectors h) nm")
    case None
    then show ?thesis using Some by (simp add: check_pin_def resolve_side_spec_def)
  next
    case (Some c)
    have ne: "Some nm \<noteq> fname" using assms \<open>tname = Some nm\<close> by auto
    show ?thesis
      using \<open>tname = Some nm\<close> Some ne resolve_pin_spec_self[of tpin c nm]
      by (auto simp: check_pin_conn[OF Some] resolve_side_spec_def split: sum.splits)
  qed
qed

text \<open>
  Claim C2 ends with a scenario: on the connector with pins \<open>[1, 2]\<close> and pin labels
  \<open>["A", "1"]\<close>, referencing \<open>"1"\<close> resolves to pin \<open>1\<close> without error. The label \<open>"1"\<close> is
  the second label, so the token resolves to the second pin, \<open>2\<close>: the string is no element
  of the integer pins, and the label lookup substitutes \<open>pins[1]\<close>. Were the pins the
  strings \<open>["1", "2"]\<close>, or the label the integer \<open>1\<close> and the token too, the token would
  be a pin at position 0 and a label at position 1, and the call would raise the ambiguity
  error.
\<close>

theorem label_scenario_counterexample:
  "connect label_harness (Some ''X'') (PStr ''1'') ''W'' (PInt 1) None PNone =
     Inr (label_harness\<lparr>cables :=
            [(''W'', cable_connect ((plain_cable 2)\<lparr>w_name := ''W''\<rparr>)
                       (Some ''X'') (PInt 2) (PInt 1) None PNone)]\<rparr>)
   \<and> connect label_harness_str (Some ''X'') (PStr ''1'') ''W'' (PInt 1) None PNone =
     Inl (AmbiguousPinReference ''X'' (PStr ''1''), label_harness_str)
   \<and> connect label_harness_int (Some ''X'') (PInt 1) ''W'' (PInt 1) None PNone =
     Inl (AmbiguousPinReference ''X'' (PInt 1), label_harness_int)"
  by code_simp

text \<open>
  Claim C2, amended. For a connect operation whose two ends do not name the same connector,
  \<open>Harness.connect\<close> is the connect operation of section 4.3 (\<open>connect_spec\<close>): each end
  that names a connector of the harness is resolved by \<open>resolve_pin_spec\<close>, the from end
  first. A token that is a pin and a label at different positions raises the ambiguity
  error; otherwise a token that occurs more than once among the labels raises the
  duplicate-label error; otherwise a token that is a label exactly once is replaced by the
  pin at the position of the label (a token that is a pin and a label at the same position
  so resolves to itself); a token that is no label stands for itself and raises the
  unknown-pin error unless it is a pin. Every error leaves the harness as it was. On the
  connector with pins \<open>[1, 2]\<close> and labels \<open>["A", "1"]\<close>: \<open>"A"\<close> resolves to pin \<open>1\<close> by
  its label, \<open>"1"\<close> resolves to pin \<open>2\<close> by its label, and the integer \<open>1\<close> resolves to pin
  \<open>1\<close> directly.
\<close>

theorem connect_pin_resolution:
  "((fname \<noteq> tname \<or> fname = None) \<longrightarrow>
      connect h fname fpin via_name via_pin tname tpin =
      connect_spec h fname fpin via_name via_pin tname tpin)
   \<and> connect label_harness (Some ''X'') (PStr ''A'') ''W'' (PInt 1) None PNone =
       Inr (label_harness\<lparr>cables :=
              [(''W'', cable_connect ((plain_cable 2)\<lparr>w_name := ''W''\<rparr>)
                         (Some ''X'') (PInt 1) (PInt 1) None PNone)]\<rparr>)
   \<and> connect label_harness (Some ''X'') (PStr ''1'') ''W'' (PInt 1) None PNone =
       Inr (label_harness\<lparr>cables :=
              [(''W'', cable_connect ((plain_cable 2)\<lparr>w_name := ''W''\<rparr>)
                         (Some ''X'') (PInt 2) (PInt 1) None PNone)]\<rparr>)
   \<and> connect label_harness (Some ''X'') (PInt 1) ''W'' (PInt 1) None PNone =
       Inr (label_harness\<lparr>cables :=
              [(''W'', cable_connect ((plain_cable 2)\<lparr>w_name := ''W''\<rparr>)
                         (Some ''X'') (PInt 1) (PInt 1) None PNone)]\<rparr>)"
proof (intro conjI impI)
  assume "fname \<noteq> tname \<or> fname = None"
  then show "connect h fname fpin via_name via_pin tname tpin =
      connect_spec h fname fpin via_name via_pin tname tpin"
    by (simp add: connect_def connect_spec_def check_pin_from check_pin_to
        split: sum.splits option.splits)
qed code_simp+

theorem connect_pin_resolution_witness:
  "connect label_harness (Some ''X'') (PStr ''B'') ''W'' (PInt 1) (Some ''Y'') (PInt 7) =
     Inl (UnknownPin ''X'' (PStr ''B''), label_harness)
   \<and> connect_spec label_harness (Some ''X'') (PStr ''B'') ''W'' (PInt 1) (Some ''Y'') (PInt 7) =
     Inl (UnknownPin ''X'' (PStr ''B''), label_harness)"
proof -
  have ne: "Some ''X'' \<noteq> Some ''Y'' \<or> Some ''X'' = (None :: string option)" by simp
  have sp: "connect_spec label_harness (Some ''X'') (PStr ''B'') ''W'' (PInt 1) (Some ''Y'') (PInt 7) =
     Inl (UnknownPin ''X'' (PStr ''B''), label_harness)"
    by code_simp
  from connect_pin_resolution[of "Some ''X''" "Some ''Y''" label_harness "PStr ''B''" "''W''" "PInt 1" "PInt 7"] ne
  have "connect label_harness (Some ''X'') (PStr ''B'') ''W'' (PInt 1) (Some ''Y'') (PInt 7) =
      connect_spec label_harness (Some ''X'') (PStr ''B'') ''W'' (PInt 1) (Some ''Y'') (PInt 7)"
    by blast
  with sp show ?thesis by simp
qed

text \<open>
  Why the two ends must not name the same connector: the assignments
  \<open>if name == from_name: from_pin = pin\<close> and \<open>if name == to_name: to_pin = pin\<close> both
  fire then. With \<open>X\<close> at both ends, the from pin given by its label \<open>"A"\<close> and the to pin
  \<open>2\<close>, the record gets the to pin \<open>1\<close>.
\<close>

lemma same_connector_overwrite:
  "connect label_harness (Some ''X'') (PStr ''A'') ''W'' (PInt 1) (Some ''X'') (PInt 2) =
     Inr (label_harness\<lparr>cables :=
            [(''W'', cable_connect ((plain_cable 2)\<lparr>w_name := ''W''\<rparr>)
                       (Some ''X'') (PInt 1) (PInt 1) (Some ''X'') (PInt 1))]\<rparr>)
   \<and> connect_spec label_harness (Some ''X'') (PStr ''A'') ''W'' (PInt 1) (Some ''X'') (PInt 2) =
     Inr (label_harness\<lparr>cables :=
            [(''W'', cable_connect ((plain_cable 2)\<lparr>w_name := ''W''\<rparr>)
                       (Some ''X'') (PInt 1) (PInt 1) (Some ''X'') (PInt 2))]\<rparr>)"
  by code_simp

text \<open>
  Claim C10. \<open>Harness.connect\<close> is atomic on error: whenever the call raises, whatever the
  exception, the harness at the raise is the harness before the call (connectors, cables
  with their connection records, mates and all other attributes). When the call returns,
  the harness differs from the one before in one cable only, which has got one connection
  record: all the checks run before the single mutating call.
\<close>

theorem connect_atomic:
  "(connect h fname fpin via_name via_pin tname tpin = Inl (e, h') \<longrightarrow> h' = h)
   \<and> (connect h fname fpin via_name via_pin tname tpin = Inr h' \<longrightarrow>
        (\<exists>cable fp tp. map_of (cables h) via_name = Some cable
           \<and> h' = h\<lparr>cables := AList.update via_name
                       (cable_connect cable fname fp via_pin tname tp) (cables h)\<rparr>))"
  by (auto simp: connect_def split: sum.splits option.splits)

theorem connect_atomic_witness:
  "connect label_harness (Some ''X'') (PInt 3) ''W'' (PInt 1) None PNone =
     Inl (UnknownPin ''X'' (PInt 3), label_harness)"
proof -
  have "\<exists>h'. connect label_harness (Some ''X'') (PInt 3) ''W'' (PInt 1) None PNone =
     Inl (UnknownPin ''X'' (PInt 3), h')"
    by (simp add: connect_def check_pin_def label_harness_def add_connector_def add_cable_def
        Harness_init_def plain_connector_def)
  then obtain h' where e: "connect label_harness (Some ''X'') (PInt 3) ''W'' (PInt 1) None PNone =
     Inl (UnknownPin ''X'' (PInt 3), h')" by blast
  with connect_atomic[of label_harness "Some ''X''" "PInt 3" "''W''" "PInt 1" None PNone
      "UnknownPin ''X'' (PInt 3)" h']
  have "h' = label_harness" by blast
  with e show ?thesis by simp
qed

section \<open>Properties of the connection resolution engine\<close>

lemma collect_map_Inr_id: "collect (map Inr xs) = Inr xs"
  by (induction xs) auto

lemma collect_Inr_D: "collect rs = Inr xs \<Longrightarrow> rs = map Inr xs"
  by (induction rs arbitrary: xs) (auto split: sum.splits)

lemma collect_Inr_iff: "collect rs = Inr xs \<longleftrightarrow> rs = map Inr xs"
  using collect_Inr_D collect_map_Inr_id by blast

lemma collect_map_Inr:
  assumes "collect (map f xs) = Inr ys"
  shows "length ys = length xs" and "\<And>i. i < length xs \<Longrightarrow> f (xs ! i) = Inr (ys ! i)"
proof -
  from assms have m: "map f xs = map Inr ys" by (simp add: collect_Inr_iff)
  then show "length ys = length xs" by (metis length_map)
  fix i assume "i < length xs"
  with m show "f (xs ! i) = Inr (ys ! i)" by (metis length_map nth_map)
qed

lemma filter_None_set: "set (filter_None cc) = {n. Some n \<in> set cc \<and> n \<noteq> 0}"
proof -
  have "\<And>c. truthy_count c \<longleftrightarrow> (\<exists>n. c = Some n \<and> n \<noteq> 0)"
    by (case_tac c) auto
  then show ?thesis by (force simp: filter_None_def)
qed

lemma count_raise_before:
  "connection_count ex cs = Inl e \<Longrightarrow> process_set ex doc st cs = Inl (e, st)"
  by (simp add: process_set_def)

lemma count_ambiguous:
  assumes "collect (map (entry_count ex) cs) = Inr cc"
    and "set cc \<subseteq> {None, Some 0}"
  shows "connection_count ex cs = Inl AmbiguousConnectionCount"
proof -
  have "\<not> list_ex truthy_count cc"
    using assms(2) by (auto simp: list_ex_iff)
  with assms(1) show ?thesis by (simp add: connection_count_def)
qed

lemma count_inconsistent:
  assumes "collect (map (entry_count ex) cs) = Inr cc"
    and "Some m \<in> set cc" "Some n \<in> set cc" "m \<noteq> n" "m \<noteq> 0" "n \<noteq> 0"
  shows "connection_count ex cs = Inl InconsistentConnectionCount"
proof -
  have ex1: "list_ex truthy_count cc"
    using assms(2,5) by (force simp: list_ex_iff)
  have "{m, n} \<subseteq> set (filter_None cc)"
    using assms by (simp add: filter_None_set)
  then have "card {m, n} \<le> card (set (filter_None cc))"
    by (intro card_mono) auto
  then have "1 < length (remdups (filter_None cc))"
    using assms(4) by (simp add: length_remdups_card_conv)
  with ex1 assms(1) show ?thesis by (simp add: connection_count_def)
qed

lemma count_value:
  assumes "connection_count ex cs = Inr n"
    and "collect (map (entry_count ex) cs) = Inr cc"
  shows "n \<noteq> 0" and "\<And>m. Some m \<in> set cc \<Longrightarrow> m \<noteq> 0 \<Longrightarrow> m = n"
proof -
  from assms have ex1: "list_ex truthy_count cc"
    and le: "\<not> 1 < length (remdups (filter_None cc))"
    and n: "n = hd (filter_None cc)"
    by (auto simp: connection_count_def split: if_splits)
  from ex1 have ne: "filter_None cc \<noteq> []"
    by (auto simp: filter_None_def list_ex_iff filter_empty_conv)
  then have hdin: "n \<in> set (filter_None cc)" using n by simp
  then show "n \<noteq> 0" by (simp add: filter_None_set)
  fix m assume "Some m \<in> set cc" "m \<noteq> 0"
  then have "m \<in> set (filter_None cc)" by (simp add: filter_None_set)
  with hdin have "{m, n} \<subseteq> set (filter_None cc)" by simp
  then have "card {m, n} \<le> card (set (filter_None cc))" by (intro card_mono) auto
  with le have "card {m, n} \<le> 1" by (simp add: length_remdups_card_conv)
  then show "m = n" by (cases "m = n") auto
qed

lemma resolve_all_length:
  "resolve_all st items = Inr (tds, st') \<Longrightarrow> length tds = length items"
  by (induction items arbitrary: st tds) (auto split: sum.splits)

lemma entry_length:
  assumes "entry_count ex e = Inr c" and "c = None \<or> c = Some n"
    and "resolve_entry st (normalize_entry n e) = Inr (e2, st')"
    and "expand_entry ex e2 = Inr xs"
  shows "length xs = n"
proof (cases e)
  case (EStr s)
  with assms(3) obtain tds where "resolve_all st (replicate n s) = Inr (tds, st')"
    and "e2 = EList (map snd tds)"
    by (auto simp: normalize_entry_def split: sum.splits)
  then show ?thesis using assms(4) resolve_all_length[of st "replicate n s" tds st'] by auto
next
  case (EList items)
  with assms(3) obtain tds where "resolve_all st items = Inr (tds, st')"
    and "e2 = EList (map snd tds)"
    by (auto simp: normalize_entry_def split: sum.splits)
  moreover have "length items = n" using assms(1,2) EList by auto
  ultimately show ?thesis using assms(4) resolve_all_length[of st items tds st'] by auto
next
  case (EDict kvs)
  with assms show ?thesis
    by (auto simp: normalize_entry_def split: sum.splits list.splits)
qed

lemma resolve_entries_nth:
  assumes "resolve_entries st es = Inr (es2, st')"
  shows "length es2 = length es
    \<and> (\<forall>i < length es. \<exists>s s'. resolve_entry s (es ! i) = Inr (es2 ! i, s'))"
  using assms
proof (induction es arbitrary: st es2)
  case Nil
  then show ?case by simp
next
  case (Cons e es)
  from Cons.prems obtain e1 st1 es1 where
    a: "resolve_entry st e = Inr (e1, st1)" and b: "resolve_entries st1 es = Inr (es1, st')"
    and c: "es2 = e1 # es1"
    by (auto split: sum.splits)
  from Cons.IH[OF b] have len: "length es1 = length es"
    and nth: "\<And>i. i < length es \<Longrightarrow> \<exists>s s'. resolve_entry s (es ! i) = Inr (es1 ! i, s')"
    by auto
  have "\<exists>s s'. resolve_entry s ((e # es) ! i) = Inr (es2 ! i, s')" if "i < length (e # es)" for i
  proof (cases i)
    case 0
    then show ?thesis using a c by auto
  next
    case (Suc j)
    then show ?thesis using nth[of j] that c by simp
  qed
  then show ?case using len c by simp
qed

text \<open>
  The part of claim C4 that holds. When a connection set passes the count
  determination with the count \<open>n\<close> and none of its entries reveals the count \<open>0\<close>, then
  after steps 2 to 4 (strings expanded, designators resolved, pins expanded) the set has as
  many entries as before and every entry is a list of \<open>n\<close> items.
\<close>

theorem equal_lengths:
  assumes cnt: "connection_count ex cs = Inr n"
    and cc: "collect (map (entry_count ex) cs) = Inr cc"
    and nz: "Some 0 \<notin> set cc"
    and res: "resolve_entries st (map (normalize_entry n) cs) = Inr (set2, st')"
    and exp: "collect (map (expand_entry ex) set2) = Inr set3"
  shows "length set3 = length cs \<and> (\<forall>xs \<in> set set3. length xs = n)"
proof -
  have l2: "length set2 = length cs" using resolve_entries_nth[OF res] by simp
  have l3: "length set3 = length cs" using collect_map_Inr(1)[OF exp] l2 by simp
  have "length (set3 ! i) = n" if i: "i < length cs" for i
  proof -
    have c: "entry_count ex (cs ! i) = Inr (cc ! i)"
      using collect_map_Inr(2)[OF cc i] .
    have "length cc = length cs" using collect_map_Inr(1)[OF cc] .
    then have "cc ! i \<in> set cc" using i by simp
    have v: "cc ! i = None \<or> cc ! i = Some n"
    proof (cases "cc ! i")
      case None
      then show ?thesis by simp
    next
      case (Some m)
      with \<open>cc ! i \<in> set cc\<close> have "Some m \<in> set cc" by simp
      moreover from this nz have "m \<noteq> 0" by (cases m) auto
      ultimately have "m = n" using count_value(2)[OF cnt cc] by blast
      with Some show ?thesis by simp
    qed
    from resolve_entries_nth[OF res] i obtain s s' where
      r: "resolve_entry s (normalize_entry n (cs ! i)) = Inr (set2 ! i, s')" by auto
    have e: "expand_entry ex (set2 ! i) = Inr (set3 ! i)"
      using collect_map_Inr(2)[OF exp, of i] i l2 by simp
    show ?thesis using entry_length[OF c v r e] .
  qed
  then have "\<forall>xs \<in> set set3. length xs = n"
    using l3 by (metis in_set_conv_nth)
  with l3 show ?thesis by simp
qed

theorem equal_lengths_witness:
  "connection_count expand set_bare = Inr 2
   \<and> collect (map (expand_entry expand)
        [EList [''X1'', ''X1''], EDict [(''W1'', PScalar (PStr ''1-2''))], EList [''X2'', ''X2'']]) =
       Inr [[(''X1'', PInt 1), (''X1'', PInt 1)], [(''W1'', PInt 1), (''W1'', PInt 2)],
            [(''X2'', PInt 1), (''X2'', PInt 1)]]
   \<and> length [(''X1'', PInt 1), (''X1'', PInt (1::int))] = 2"
proof -
  let ?set2 = "[EList [''X1'', ''X1''], EDict [(''W1'', PScalar (PStr ''1-2''))], EList [''X2'', ''X2'']]"
  let ?set3 = "[[(''X1'', PInt 1), (''X1'', PInt 1)], [(''W1'', PInt 1), (''W1'', PInt 2)],
            [(''X2'', PInt 1), (''X2'', PInt 1)]]"
  have cnt: "connection_count expand set_bare = Inr 2" by code_simp
  have cc: "collect (map (entry_count expand) set_bare) = Inr [None, Some 2, None]" by code_simp
  have nz: "Some 0 \<notin> set [None, Some (2::nat), None]" by simp
  have res: "resolve_entries init_res_state (map (normalize_entry 2) set_bare) =
     Inr (?set2, \<lparr>designators_and_templates = [(''X1'', ''X1''), (''W1'', ''W1''), (''X2'', ''X1'')],
                  autogenerated_designators = []\<rparr>)"
    by code_simp
  have exp: "collect (map (expand_entry expand) ?set2) = Inr ?set3" by code_simp
  from equal_lengths[OF cnt cc nz res exp]
  have "\<forall>xs \<in> set ?set3. length xs = 2" by blast
  then have "length [(''X1'', PInt 1), (''X1'', PInt (1::int))] = 2" by simp
  with cnt exp show ?thesis by blast
qed

text \<open>
  The part of claim C3 that holds. A failure of the count determination is
  raised with the harness and the dictionaries untouched; a connection set whose entries
  reveal nothing but \<open>None\<close> and \<open>0\<close> raises \<open>AmbiguousConnectionCount\<close>; and two entries
  that reveal different counts, neither of them \<open>0\<close>, raise
  \<open>InconsistentConnectionCount\<close>.
\<close>

theorem count_determination:
  "(connection_count ex cs = Inl e \<longrightarrow> process_set ex doc st cs = Inl (e, st))
   \<and> (collect (map (entry_count ex) cs) = Inr cc \<longrightarrow> set cc \<subseteq> {None, Some 0} \<longrightarrow>
        connection_count ex cs = Inl AmbiguousConnectionCount)
   \<and> (collect (map (entry_count ex) cs) = Inr cc \<longrightarrow> Some m \<in> set cc \<longrightarrow> Some n \<in> set cc \<longrightarrow>
        m \<noteq> n \<longrightarrow> m \<noteq> 0 \<longrightarrow> n \<noteq> 0 \<longrightarrow>
        connection_count ex cs = Inl InconsistentConnectionCount)"
  using count_raise_before[of ex cs e doc st] count_ambiguous[of ex cs cc]
    count_inconsistent[of ex cs cc m n]
  by blast

theorem count_determination_witness:
  "connection_count expand [EStr ''X1'', EStr ''W1''] = Inl AmbiguousConnectionCount
   \<and> process_set expand (scenario_doc [EStr ''X1'', EStr ''W1''])
        \<lparr>p_harness = Harness_init, p_res = init_res_state\<rparr> [EStr ''X1'', EStr ''W1''] =
       Inl (AmbiguousConnectionCount, \<lparr>p_harness = Harness_init, p_res = init_res_state\<rparr>)
   \<and> connection_count expand [EList [''X1''], EDict [(''W1'', PScalar (PStr ''1-2''))]] =
       Inl InconsistentConnectionCount"
proof -
  let ?a = "[EStr ''X1'', EStr ''W1'']"
  let ?b = "[EList [''X1''], EDict [(''W1'', PScalar (PStr ''1-2''))]]"
  let ?st = "\<lparr>p_harness = (Harness_init :: int harness), p_res = init_res_state\<rparr>"
  have ca: "collect (map (entry_count expand) ?a) = Inr [None, None]" by code_simp
  have cb: "collect (map (entry_count expand) ?b) = Inr [Some 1, Some 2]" by code_simp
  have amb: "connection_count expand ?a = Inl AmbiguousConnectionCount"
    using count_determination[of expand ?a AmbiguousConnectionCount "scenario_doc ?a" ?st
        "[None, None]" 0 0] ca by simp
  have inc: "connection_count expand ?b = Inl InconsistentConnectionCount"
    using count_determination[of expand ?b AmbiguousConnectionCount "scenario_doc ?a" ?st
        "[Some 1, Some 2]" 1 2] cb by simp
  have "process_set expand (scenario_doc ?a) ?st ?a = Inl (AmbiguousConnectionCount, ?st)"
    using count_determination[of expand ?a AmbiguousConnectionCount "scenario_doc ?a" ?st] amb
    by blast
  with amb inc show ?thesis by blast
qed

text \<open>
  Claim C1 expects the chains \<open>(X1,1)-(W1,1)-(X2,1)\<close> and \<open>(X1,2)-(W1,2)-(X2,2)\<close> from the
  connection set \<open>[X1, W1, X2]\<close> with the pin range \<open>1-2\<close> on the cable only. Step 4 gives
  every element of a list entry the pin \<open>1\<close>, and a bare designator has become such a
  list in step 2: both connections use pin \<open>1\<close> of \<open>X1\<close> and of \<open>X2\<close>, whether \<open>X2\<close>
  is written \<open>X1.X2\<close> (an instance of the template \<open>X1\<close>) or \<open>X2\<close>.
\<close>

theorem scenario_counterexample:
  "map_sum (\<lambda>e. e) (\<lambda>h. connections_of h ''W1'') (parse expand (scenario_doc set_bare)) =
     Inr [\<lparr>from_name = Some ''X1'', from_port = PInt 1, via_port = PInt 1,
            to_name = Some ''X2'', to_port = PInt 1\<rparr>,
          \<lparr>from_name = Some ''X1'', from_port = PInt 1, via_port = PInt 2,
            to_name = Some ''X2'', to_port = PInt 1\<rparr>]
   \<and> map_sum (\<lambda>e. e) (\<lambda>h. connections_of h ''W1'') (parse expand (scenario_doc set_bare_X2)) =
     Inr [\<lparr>from_name = Some ''X1'', from_port = PInt 1, via_port = PInt 1,
            to_name = Some ''X2'', to_port = PInt 1\<rparr>,
          \<lparr>from_name = Some ''X1'', from_port = PInt 1, via_port = PInt 2,
            to_name = Some ''X2'', to_port = PInt 1\<rparr>]"
  by code_simp

text \<open>
  Claim C1, amended. With the connector template \<open>X1\<close> (pins \<open>[1, 2]\<close>) and the cable
  template \<open>W1\<close> (two wires), the connection set whose three entries all carry the pin
  range \<open>1-2\<close>, \<open>[{X1: 1-2}, {W1: 1-2}, {X1.X2: 1-2}]\<close>, creates the connectors \<open>X1\<close> and
  \<open>X2\<close> and the cable \<open>W1\<close> and makes exactly two connect operations:
  \<open>(X1,1)-(W1,1)-(X2,1)\<close> and \<open>(X1,2)-(W1,2)-(X2,2)\<close>. With the pin range on the cable
  only, \<open>[X1, {W1: 1-2}, X1.X2]\<close>, the two operations are \<open>(X1,1)-(W1,1)-(X2,1)\<close> and
  \<open>(X1,1)-(W1,2)-(X2,1)\<close>: a bare designator stands for pin \<open>1\<close> in every connection.
\<close>

theorem scenario_chains:
  "map_sum (\<lambda>e. e) (\<lambda>h. (map fst (connectors h), map fst (cables h), connections_of h ''W1''))
     (parse expand (scenario_doc set_ranges)) =
     Inr ([''X1'', ''X2''], [''W1''],
          [\<lparr>from_name = Some ''X1'', from_port = PInt 1, via_port = PInt 1,
             to_name = Some ''X2'', to_port = PInt 1\<rparr>,
           \<lparr>from_name = Some ''X1'', from_port = PInt 2, via_port = PInt 2,
             to_name = Some ''X2'', to_port = PInt 2\<rparr>])
   \<and> map_sum (\<lambda>e. e) (\<lambda>h. (map fst (connectors h), map fst (cables h), connections_of h ''W1''))
     (parse expand (scenario_doc set_bare)) =
     Inr ([''X1'', ''X2''], [''W1''],
          [\<lparr>from_name = Some ''X1'', from_port = PInt 1, via_port = PInt 1,
             to_name = Some ''X2'', to_port = PInt 1\<rparr>,
           \<lparr>from_name = Some ''X1'', from_port = PInt 1, via_port = PInt 2,
             to_name = Some ''X2'', to_port = PInt 1\<rparr>])"
  by code_simp

theorem scenario_chains_witness:
  "map_sum (\<lambda>e. e) (\<lambda>h. length (connections_of h ''W1''))
     (parse expand (scenario_doc set_ranges)) = Inr 2"
proof -
  have "map_sum (\<lambda>e. e) (\<lambda>h. length (connections_of h ''W1'')) r =
        map_sum (\<lambda>e. e) (\<lambda>t. length (snd (snd t)))
          (map_sum (\<lambda>e. e) (\<lambda>h. (map fst (connectors h), map fst (cables h), connections_of h ''W1'')) r)"
    for r :: "error + int harness"
    by (cases r) auto
  then show ?thesis using scenario_chains by simp
qed

text \<open>
  Claim C3 at the connection set \<open>[[], [X1, X1]]\<close>: the entries reveal the counts \<open>0\<close> and
  \<open>2\<close>, which disagree, and the claim asks for \<open>InconsistentConnectionCount\<close>. The source
  drops the \<open>0\<close> together with the \<open>None\<close>s (\<open>filter(None, connectioncount)\<close>), takes the
  count \<open>2\<close>, and \<open>parse\<close> returns a harness (with the connector \<open>X1\<close> and no cable).
\<close>

theorem empty_entry_count:
  "collect (map (entry_count expand) set_empty_entry) = Inr [Some 0, Some 2]
   \<and> connection_count expand set_empty_entry = Inr 2
   \<and> map_sum (\<lambda>e. e) (\<lambda>h. (map fst (connectors h), map fst (cables h)))
       (parse expand (scenario_doc set_empty_entry)) = Inr ([''X1''], [])"
  by code_simp

text \<open>
  Claim C4 at the same connection set: the set passes the count determination with the
  count \<open>2\<close>, and after steps 2 to 4 its entries are lists of the lengths \<open>0\<close> and \<open>2\<close>.
  No exception is raised: the transposition of step 6 stops at the shortest list, no
  connect operation is made, and the loop body returns.
\<close>

theorem empty_entry_lengths:
  "connection_count expand set_empty_entry = Inr 2
   \<and> resolve_entries init_res_state (map (normalize_entry 2) set_empty_entry) =
       Inr ([EList [], EList [''X1'', ''X1'']],
            \<lparr>designators_and_templates = [(''X1'', ''X1'')], autogenerated_designators = []\<rparr>)
   \<and> collect (map (expand_entry expand) [EList [], EList [''X1'', ''X1'']]) =
       Inr [[], [(''X1'', PInt 1), (''X1'', PInt 1)]]
   \<and> zip_star [[], [(''X1'', PInt 1), (''X1'', PInt 1)]] = []
   \<and> process_set expand (scenario_doc set_empty_entry)
        \<lparr>p_harness = Harness_init, p_res = init_res_state\<rparr> set_empty_entry =
       Inr \<lparr>p_harness = add_connector Harness_init ''X1'' (plain_connector [PInt 1, PInt 2] []),
            p_res = \<lparr>designators_and_templates = [(''X1'', ''X1'')],
                     autogenerated_designators = []\<rparr>\<rparr>"
  by code_simp

section \<open>Properties of the bill of materials\<close>

lemma fromkeys_fold:
  "distinct acc \<Longrightarrow>
   distinct (fold (\<lambda>x acc. if x \<in> set acc then acc else acc @ [x]) xs acc)
   \<and> set (fold (\<lambda>x acc. if x \<in> set acc then acc else acc @ [x]) xs acc) = set acc \<union> set xs"
  by (induction xs arbitrary: acc) auto

lemma distinct_dict_fromkeys: "distinct (dict_fromkeys xs)"
  using fromkeys_fold[of "[]" xs] by (simp add: dict_fromkeys_def)

lemma set_dict_fromkeys: "set (dict_fromkeys xs) = set xs"
  using fromkeys_fold[of "[]" xs] by (simp add: dict_fromkeys_def)


lemma enumerate1_snd: "map snd (enumerate1 xs) = xs"
  by (simp add: enumerate1_def del: upt_Suc)

lemma add_id_fields:
  "item (add_id (i, e)) = item e" "qty (add_id (i, e)) = qty e" "unit (add_id (i, e)) = unit e"
  "designators (add_id (i, e)) = designators e" "manufacturer (add_id (i, e)) = manufacturer e"
  "mpn (add_id (i, e)) = mpn e" "pn (add_id (i, e)) = pn e" "row_id (add_id (i, e)) = i"
  "bom_types_group (add_id (i, e)) = bom_types_group e"
  by (simp_all add: add_id_def bom_types_group_def)

lemma bom_rows_alt: "bom_rows env es = map add_id (enumerate1 (sorted_groups env es))"
  by (simp add: bom_rows_def)

lemma rows_proj:
  assumes "\<And>i e. f (add_id (i, e)) = g e"
  shows "map f (bom_rows env es) = map g (sorted_groups env es)"
proof -
  have "f \<circ> add_id = g \<circ> snd"
    using assms by (auto simp: fun_eq_iff)
  then have "map f (map add_id ps) = map g (map snd ps)" for ps :: "(nat \<times> 'a bom_entry) list"
    by (simp only: map_map)
  then show ?thesis by (simp only: bom_rows_alt enumerate1_snd)
qed


lemma group_row_fields:
  assumes "k \<in> set (map bom_types_group es)"
  shows "bom_types_group (group_row env es k) = k"
    and "qty (group_row env es k) =
         round3 env (foldl (+) 0 (map qty (filter (\<lambda>v. bom_types_group v = k) es)))"
    and "designators (group_row env es k) =
         FList (sort (dict_fromkeys (concat (map entry_designators
                  (filter (\<lambda>v. bom_types_group v = k) es)))))"
proof -
  let ?m = "filter (\<lambda>v. bom_types_group v = k) es"
  from assms have "?m \<noteq> []" by (auto simp: filter_empty_conv)
  then have "hd ?m \<in> set ?m" by (rule hd_in_set)
  moreover have "\<forall>v \<in> set ?m. bom_types_group v = k" by simp
  ultimately have "bom_types_group (hd ?m) = k" by blast
  then show "bom_types_group (group_row env es k) = k"
    by (simp add: group_row_def Let_def bom_types_group_def)
  show "qty (group_row env es k) = round3 env (foldl (+) 0 (map qty ?m))"
    by (simp add: group_row_def Let_def)
  show "designators (group_row env es k) =
         FList (sort (dict_fromkeys (concat (map entry_designators ?m))))"
    by (simp add: group_row_def Let_def)
qed




lemma rows_of_bom:
  assumes "bom_cache h = []" and "bom env h = Inr (rows, h')"
  shows "rows = bom_rows env (bom_entries env h)" and "h' = h\<lparr>bom_cache := rows\<rparr>"
  using assms by (auto simp: bom_def Let_def split: if_splits)



lemma bom_XXW: "bom plain_env harness_XXW = Inr (rows_XXW, harness_XXW\<lparr>bom_cache := rows_XXW\<rparr>)"
  by code_simp










text \<open>
  Claim C9. The BOM is computed at most once: a call of \<open>bom\<close> on a harness whose cache is
  not empty returns the cache and leaves the harness as it is; so after a call that has
  returned rows that are not empty, the cache holds them and every later call returns the
  same list, whatever else of the harness has changed in between. \<open>get_bom_index\<close>, which
  the graph construction calls, reads the cache in the same way.
\<close>

theorem bom_cached:
  "(bom_cache h \<noteq> [] \<longrightarrow> bom env h = Inr (bom_cache h, h))
   \<and> (bom env h = Inr (rows, h1) \<longrightarrow> rows \<noteq> [] \<longrightarrow>
        bom_cache h1 = rows \<and> bom env h1 = Inr (rows, h1))
   \<and> (bom_cache h \<noteq> [] \<longrightarrow>
        get_bom_index env h it un man mp p =
          Inr (map_option row_id
                 (find (\<lambda>entry. bom_types_group entry =
                          (clean_str env it, map_option (clean_str env) un, clean_field env man,
                           clean_field env mp, clean_field env p))
                    (bom_cache h)), h))"
  by (auto simp: bom_def get_bom_index_def Let_def split: if_splits)

theorem bom_cached_witness:
  "bom plain_env harness_XXW = Inr (rows_XXW, harness_XXW\<lparr>bom_cache := rows_XXW\<rparr>)
   \<and> rows_XXW \<noteq> []
   \<and> bom plain_env (harness_XXW\<lparr>bom_cache := rows_XXW\<rparr>) =
       Inr (rows_XXW, harness_XXW\<lparr>bom_cache := rows_XXW\<rparr>)
   \<and> bom plain_env
        (add_connector (harness_XXW\<lparr>bom_cache := rows_XXW\<rparr>) ''X3'' (pn_connector ''A'')) =
       Inr (rows_XXW,
            add_connector (harness_XXW\<lparr>bom_cache := rows_XXW\<rparr>) ''X3'' (pn_connector ''A''))"
proof -
  let ?h1 = "harness_XXW\<lparr>bom_cache := rows_XXW\<rparr>"
  let ?h3 = "add_connector ?h1 ''X3'' (pn_connector ''A'')"
  have ne: "rows_XXW \<noteq> []" by (simp add: rows_XXW_def)
  have c: "bom_cache ?h3 = rows_XXW"
    by (simp add: add_connector_def)
  have again: "bom plain_env ?h1 = Inr (rows_XXW, ?h1)"
    using bom_cached[of harness_XXW plain_env rows_XXW ?h1] bom_XXW ne by blast
  have "bom_cache ?h3 \<noteq> []" using c ne by simp
  then have "bom plain_env ?h3 = Inr (bom_cache ?h3, ?h3)"
    using bom_cached[of ?h3 plain_env] by blast
  then have later: "bom plain_env ?h3 = Inr (rows_XXW, ?h3)"
    by (simp only: c)
  show ?thesis using bom_XXW ne again later by blast
qed

lemma mset_concat_map:
  assumes "mset xs = mset ys"
  shows "mset (concat (map f xs)) = mset (concat (map f ys))"
proof -
  have "mset (concat (map f zs)) = sum_mset (image_mset (\<lambda>z. mset (f z)) (mset zs))" for zs
    by (induction zs) auto
  then show ?thesis using assms by simp
qed

lemma entries_perm:
  assumes "mset (connectors h2) = mset (connectors h1)" and "mset (cables h2) = mset (cables h1)"
    and "additional_bom_items h2 = additional_bom_items h1"
  shows "mset (bom_entries env h2) = mset (bom_entries env h1)"
  using mset_concat_map[OF assms(1), of "\<lambda>(name, connector). connector_bom_entries env connector"]
    mset_concat_map[OF assms(2), of "\<lambda>(name, cable). cable_bom_entries env cable"] assms(3)
  by (simp add: bom_entries_def)

lemma foldl_plus: "foldl (+) a xs = (a::'a::monoid_add) + sum_list xs"
  by (induction xs arbitrary: a) (simp_all add: add.assoc)

lemma py_sum_perm:
  fixes xs ys :: "'a::comm_monoid_add list"
  assumes "mset xs = mset ys"
  shows "foldl (+) 0 xs = foldl (+) 0 ys"
proof -
  have "sum_list xs = sum_list ys"
    using assms by (metis sum_mset_sum_list)
  then show ?thesis by (simp add: foldl_plus)
qed

lemma sorted_dedup_eq:
  fixes xs ys :: "'a::linorder list"
  assumes "set xs = set ys"
  shows "sort (dict_fromkeys xs) = sort (dict_fromkeys ys)"
  by (rule sorted_distinct_set_unique)
     (simp_all add: distinct_dict_fromkeys set_dict_fromkeys assms)

lemma group_row_explicit:
  assumes "k \<in> set (map bom_types_group es)"
  shows "group_row env es k =
     \<lparr>item = fst k,
      qty = round3 env (foldl (+) 0 (map qty (filter (\<lambda>v. bom_types_group v = k) es))),
      unit = fst (snd k),
      designators = FList (sort (dict_fromkeys (concat (map entry_designators
                       (filter (\<lambda>v. bom_types_group v = k) es))))),
      manufacturer = fst (snd (snd k)),
      mpn = fst (snd (snd (snd k))),
      pn = snd (snd (snd (snd k)))\<rparr>"
proof -
  let ?m = "filter (\<lambda>v. bom_types_group v = k) es"
  from assms have "?m \<noteq> []" by (auto simp: filter_empty_conv)
  then have "hd ?m \<in> set ?m" by (rule hd_in_set)
  moreover have "\<forall>v \<in> set ?m. bom_types_group v = k" by simp
  ultimately have "bom_types_group (hd ?m) = k" by blast
  then show ?thesis
    by (cases "hd ?m") (auto simp: group_row_def Let_def bom_types_group_def)
qed

lemma filter_key_single:
  "distinct (map f zs) \<Longrightarrow> k \<in> set zs \<Longrightarrow> filter (\<lambda>x. f k = f x) zs = [k]"
proof (induction zs)
  case Nil
  then show ?case by simp
next
  case (Cons z zs)
  show ?case
  proof (cases "z = k")
    case True
    with Cons.prems(1) have "\<forall>x \<in> set zs. f k \<noteq> f x" by auto
    then have "filter (\<lambda>x. f k = f x) zs = []" by (simp add: filter_empty_conv)
    with True show ?thesis by simp
  next
    case False
    with Cons.prems(2) have kz: "k \<in> set zs" by simp
    from Cons.prems(1) have "f z \<notin> f ` set zs" by simp
    with kz have "f k \<noteq> f z" by (metis imageI)
    with Cons.IH kz Cons.prems(1) show ?thesis by simp
  qed
qed

lemma sort_key_perm_distinct:
  assumes "mset xs = mset ys" and "distinct (map f xs)"
  shows "sort_key f ys = sort_key f xs"
proof (rule properties_for_sort_key)
  show "mset (sort_key f xs) = mset ys" using assms(1) by simp
  show "sorted (map f (sort_key f xs))" by simp
  fix k assume k: "k \<in> set (sort_key f xs)"
  have "mset (map f ys) = mset (map f xs)" using assms(1) by simp
  then have dy: "distinct (map f ys)"
    using assms(2) mset_eq_imp_distinct_iff by blast
  have "mset (map f (sort_key f xs)) = mset (map f xs)" by simp
  then have ds: "distinct (map f (sort_key f xs))"
    using assms(2) mset_eq_imp_distinct_iff by blast
  have "set xs = set ys" using assms(1) by (rule mset_eq_setD)
  with k have ky: "k \<in> set ys" by simp
  show "filter (\<lambda>x. f k = f x) (sort_key f xs) = filter (\<lambda>x. f k = f x) ys"
    by (simp only: filter_key_single[OF ds k] filter_key_single[OF dy ky])
qed

lemma hashable_perm:
  assumes "mset es2 = mset es1"
  shows "list_all hashable (map bom_types_group es2) = list_all hashable (map bom_types_group es1)"
proof -
  have "set es2 = set es1" using assms by (rule mset_eq_setD)
  then show ?thesis by (simp add: list_all_iff)
qed

lemma group_row_perm_des:
  assumes "mset es2 = mset es1" and "k \<in> set (map bom_types_group es1)"
  shows "designators (group_row env es2 k) = designators (group_row env es1 k)"
proof -
  let ?P = "\<lambda>v::'q bom_entry. bom_types_group v = k"
  have "set es2 = set es1" using assms(1) by (rule mset_eq_setD)
  then have k2: "k \<in> set (map bom_types_group es2)"
    using assms(2) by simp
  have "set (filter ?P es2) = set (filter ?P es1)" using \<open>set es2 = set es1\<close> by simp
  then have "set (concat (map entry_designators (filter ?P es2)))
           = set (concat (map entry_designators (filter ?P es1)))"
    by (simp del: set_filter)
  then have d: "sort (dict_fromkeys (concat (map entry_designators (filter ?P es2))))
           = sort (dict_fromkeys (concat (map entry_designators (filter ?P es1))))"
    by (rule sorted_dedup_eq)
  show ?thesis
    unfolding group_row_fields(3)[OF k2] group_row_fields(3)[OF assms(2)] d ..
qed

lemma group_row_perm_sum:
  fixes es1 es2 :: "'q::{plus,zero} bom_entry list"
  assumes H: "\<And>xs ys :: 'q list. mset xs = mset ys \<Longrightarrow> foldl (+) 0 xs = foldl (+) 0 ys"
    and "mset es2 = mset es1" and "k \<in> set (map bom_types_group es1)"
  shows "group_row env es2 k = group_row env es1 k"
proof -
  let ?P = "\<lambda>v::'q bom_entry. bom_types_group v = k"
  have "set es2 = set es1" using assms(2) by (rule mset_eq_setD)
  then have k2: "k \<in> set (map bom_types_group es2)"
    using assms(3) by simp
  have m: "mset (filter ?P es2) = mset (filter ?P es1)"
    using assms(2) by (simp only: mset_filter)
  then have "mset (map qty (filter ?P es2)) = mset (map qty (filter ?P es1))"
    by (simp only: mset_map)
  then have q: "foldl (+) 0 (map qty (filter ?P es2)) = foldl (+) 0 (map qty (filter ?P es1))"
    by (rule H)
  have "designators (group_row env es2 k) = designators (group_row env es1 k)"
    using assms(2,3) by (rule group_row_perm_des)
  then have d: "sort (dict_fromkeys (concat (map entry_designators (filter ?P es2))))
           = sort (dict_fromkeys (concat (map entry_designators (filter ?P es1))))"
    unfolding group_row_fields(3)[OF k2] group_row_fields(3)[OF assms(3)] by simp
  show ?thesis
    unfolding group_row_explicit[OF k2] group_row_explicit[OF assms(3)] q d ..
qed

lemma groups_proj_perm:
  assumes "mset es2 = mset es1"
    and "\<And>k. k \<in> set (map bom_types_group es1) \<Longrightarrow>
           P (group_row env es2 k) = P (group_row env es1 k)"
  shows "mset (map P (bom_groups env es2)) = mset (map P (bom_groups env es1))"
proof -
  let ?k1 = "dict_fromkeys (map bom_types_group es1)"
  let ?k2 = "dict_fromkeys (map bom_types_group es2)"
  have "set es2 = set es1" using assms(1) by (rule mset_eq_setD)
  then have s: "set (map bom_types_group es2) = set (map bom_types_group es1)"
    by simp
  then have "set ?k2 = set ?k1" by (simp only: set_dict_fromkeys)
  then have mk: "mset ?k2 = mset ?k1"
    using set_eq_iff_mset_eq_distinct[OF distinct_dict_fromkeys distinct_dict_fromkeys] by blast
  have "map (\<lambda>k. P (group_row env es2 k)) ?k2 = map (\<lambda>k. P (group_row env es1 k)) ?k2"
  proof (rule map_cong[OF refl])
    fix k assume "k \<in> set ?k2"
    then have "k \<in> set (map bom_types_group es1)" using s by (simp only: set_dict_fromkeys)
    then show "P (group_row env es2 k) = P (group_row env es1 k)" by (rule assms(2))
  qed
  moreover have "map P (bom_groups env es2) = map (\<lambda>k. P (group_row env es2 k)) ?k2"
    by (simp add: bom_groups_def comp_def)
  ultimately have "mset (map P (bom_groups env es2)) = mset (map (\<lambda>k. P (group_row env es1 k)) ?k2)"
    by (simp only:)
  also have "\<dots> = image_mset (\<lambda>k. P (group_row env es1 k)) (mset ?k2)" by simp
  also have "\<dots> = image_mset (\<lambda>k. P (group_row env es1 k)) (mset ?k1)" by (simp only: mk)
  also have "\<dots> = mset (map P (bom_groups env es1))" by (simp add: bom_groups_def comp_def)
  finally show ?thesis .
qed

lemma rows_proj_perm:
  assumes "mset es2 = mset es1"
    and "\<And>k. k \<in> set (map bom_types_group es1) \<Longrightarrow>
           g (group_row env es2 k) = g (group_row env es1 k)"
    and "\<And>i e. f (add_id (i, e)) = g e"
  shows "mset (map f (bom_rows env es2)) = mset (map f (bom_rows env es1))"
proof -
  have p: "map f (bom_rows env es) = map g (sorted_groups env es)" for es
    using assms(3) by (rule rows_proj)
  have "mset (map g (sorted_groups env es)) = mset (map g (bom_groups env es))" for es
    by (simp add: sorted_groups_def)
  then show ?thesis
    using groups_proj_perm[OF assms(1), of g env, OF assms(2)] by (simp only: p)
qed

lemma rows_perm_keys:
  assumes "mset es2 = mset es1"
  shows "mset (map (\<lambda>r. ((item r, unit r, manufacturer r, mpn r, pn r), designators r))
                (bom_rows env es2)) =
         mset (map (\<lambda>r. ((item r, unit r, manufacturer r, mpn r, pn r), designators r))
                (bom_rows env es1))"
proof (rule rows_proj_perm[OF assms, where
      g = "\<lambda>e. ((item e, unit e, manufacturer e, mpn e, pn e), designators e)"])
  fix k assume k: "k \<in> set (map bom_types_group es1)"
  have "set es2 = set es1" using assms by (rule mset_eq_setD)
  then have k2: "k \<in> set (map bom_types_group es2)" using k by simp
  have "bom_types_group (group_row env es2 k) = bom_types_group (group_row env es1 k)"
    by (simp only: group_row_fields(1)[OF k] group_row_fields(1)[OF k2])
  then show "((item (group_row env es2 k), unit (group_row env es2 k),
               manufacturer (group_row env es2 k), mpn (group_row env es2 k),
               pn (group_row env es2 k)), designators (group_row env es2 k)) =
             ((item (group_row env es1 k), unit (group_row env es1 k),
               manufacturer (group_row env es1 k), mpn (group_row env es1 k),
               pn (group_row env es1 k)), designators (group_row env es1 k))"
    using group_row_perm_des[OF assms k, of env] by (simp add: bom_types_group_def)
next
  fix i and e :: "'a bom_entry"
  show "((item (add_id (i, e)), unit (add_id (i, e)), manufacturer (add_id (i, e)),
          mpn (add_id (i, e)), pn (add_id (i, e))), designators (add_id (i, e))) =
        ((item e, unit e, manufacturer e, mpn e, pn e), designators e)"
    by (simp add: add_id_fields)
qed

lemma rows_perm_sum:
  fixes es1 es2 :: "'q::{plus,zero} bom_entry list"
  assumes H: "\<And>xs ys :: 'q list. mset xs = mset ys \<Longrightarrow> foldl (+) 0 xs = foldl (+) 0 ys"
    and "mset es2 = mset es1"
  shows "mset (map (\<lambda>r. ((item r, unit r, manufacturer r, mpn r, pn r), qty r, designators r))
                (bom_rows env es2)) =
         mset (map (\<lambda>r. ((item r, unit r, manufacturer r, mpn r, pn r), qty r, designators r))
                (bom_rows env es1))"
    and "distinct (map item (bom_rows env es1)) \<Longrightarrow> bom_rows env es2 = bom_rows env es1"
proof -
  have eq: "group_row env es2 k = group_row env es1 k"
    if "k \<in> set (map bom_types_group es1)" for k
    using H assms(2) that by (rule group_row_perm_sum)
  show "mset (map (\<lambda>r. ((item r, unit r, manufacturer r, mpn r, pn r), qty r, designators r))
                (bom_rows env es2)) =
         mset (map (\<lambda>r. ((item r, unit r, manufacturer r, mpn r, pn r), qty r, designators r))
                (bom_rows env es1))"
    by (rule rows_proj_perm[OF assms(2), where
          g = "\<lambda>e. ((item e, unit e, manufacturer e, mpn e, pn e), qty e, designators e)"])
       (simp_all add: eq add_id_fields)
  have "mset (map (\<lambda>g. g) (bom_groups env es2)) = mset (map (\<lambda>g. g) (bom_groups env es1))"
    by (rule groups_proj_perm[OF assms(2)]) (rule eq)
  then have g: "mset (bom_groups env es2) = mset (bom_groups env es1)" by simp
  assume d: "distinct (map item (bom_rows env es1))"
  have "map item (bom_rows env es1) = map item (sorted_groups env es1)"
    by (rule rows_proj) (simp add: add_id_fields)
  with d have "distinct (map item (sorted_groups env es1))" by simp
  moreover have "mset (map item (sorted_groups env es1)) = mset (map item (bom_groups env es1))"
    by (simp add: sorted_groups_def)
  ultimately have "distinct (map item (bom_groups env es1))"
    using mset_eq_imp_distinct_iff by blast
  with g have "sort_key item (bom_groups env es2) = sort_key item (bom_groups env es1)"
    by (intro sort_key_perm_distinct) simp_all
  then show "bom_rows env es2 = bom_rows env es1"
    by (simp add: bom_rows_def sorted_groups_def)
qed

lemma map_of_perm:
  assumes "distinct (map fst xs)" and "mset ys = mset xs"
  shows "map_of ys = map_of xs"
proof -
  have "mset (map fst ys) = mset (map fst xs)" using assms(2) by simp
  then have "distinct (map fst ys)" using assms(1) mset_eq_imp_distinct_iff by blast
  moreover have "set ys = set xs" using assms(2) by (rule mset_eq_setD)
  ultimately show ?thesis using assms(1) by (simp add: map_of_inject_set)
qed

lemma generate_item_templates:
  assumes "map_of (doc_connectors d2) = map_of (doc_connectors d1)"
    and "set (map fst (doc_connectors d2)) = set (map fst (doc_connectors d1))"
    and "map_of (doc_cables d2) = map_of (doc_cables d1)"
    and "set (map fst (doc_cables d2)) = set (map fst (doc_cables d1))"
  shows "generate_item d2 rs h it = generate_item d1 rs h it"
  by (simp only: generate_item_def assms)

lemma generate_items_templates:
  assumes "\<And>rs h it. generate_item d2 rs h it = generate_item d1 rs h it"
  shows "generate_items d2 rs h its = generate_items d1 rs h its"
  by (induction its arbitrary: h) (simp_all add: assms split: sum.splits)

lemma process_set_templates:
  assumes "\<And>rs h it. generate_item d2 rs h it = generate_item d1 rs h it"
  shows "process_set ex d2 st cs = process_set ex d1 st cs"
  by (simp only: process_set_def generate_items_templates[of d2 d1, OF assms])

lemma process_sets_templates:
  assumes "\<And>rs h it. generate_item d2 rs h it = generate_item d1 rs h it"
  shows "process_sets ex d2 st sets = process_sets ex d1 st sets"
  by (induction sets arbitrary: st)
     (simp_all add: process_set_templates[of d2 d1, OF assms] split: sum.splits)

lemma parse_templates:
  assumes "distinct (map fst (doc_connectors d1))" and "distinct (map fst (doc_cables d1))"
    and "mset (doc_connectors d2) = mset (doc_connectors d1)"
    and "mset (doc_cables d2) = mset (doc_cables d1)"
    and "doc_connections d2 = doc_connections d1"
    and "doc_additional_bom_items d2 = doc_additional_bom_items d1"
  shows "parse ex d2 = parse ex d1"
proof -
  have c: "map_of (doc_connectors d2) = map_of (doc_connectors d1)"
    using assms(1,3) by (rule map_of_perm)
  have w: "map_of (doc_cables d2) = map_of (doc_cables d1)"
    using assms(2,4) by (rule map_of_perm)
  have "set (doc_connectors d2) = set (doc_connectors d1)" using assms(3) by (rule mset_eq_setD)
  then have cs: "set (map fst (doc_connectors d2)) = set (map fst (doc_connectors d1))" by simp
  have "set (doc_cables d2) = set (doc_cables d1)" using assms(4) by (rule mset_eq_setD)
  then have ws: "set (map fst (doc_cables d2)) = set (map fst (doc_cables d1))" by simp
  have g: "generate_item d2 rs h it = generate_item d1 rs h it" for rs h it
    using c cs w ws by (rule generate_item_templates)
  show ?thesis
    by (simp only: parse_def assms(5,6) process_sets_templates[of d2 d1, OF g])
qed

text \<open>
  Claim C8 says that permuting the declarations leaves the id of every row the same. The
  sort is by \<open>item\<close> only and is stable, so rows with the same item description keep the
  order in which their keys first appeared. The instances of a harness are in the order in
  which they were added: through \<open>add_connector\<close>, or by \<open>parse\<close> at their first use in the
  connection sets. Two connectors of the same description and the different part numbers
  \<open>A\<close> and \<open>B\<close> get the ids \<open>1\<close> and \<open>2\<close> in that order: the two harnesses below hold the
  same two connectors, and the two documents the same templates and the same two
  connection sets, in either order.
\<close>

theorem bom_ids_counterexample:
  "mset (connectors harness_BA) = mset (connectors harness_AB)
   \<and> map_sum (\<lambda>e. e) (\<lambda>(rows, h). map (\<lambda>r. (item r, pn r, row_id r)) rows)
       (bom plain_env harness_AB) =
     Inr [(''Connector, 1 pins'', FStr ''A'', 1), (''Connector, 1 pins'', FStr ''B'', 2)]
   \<and> map_sum (\<lambda>e. e) (\<lambda>(rows, h). map (\<lambda>r. (item r, pn r, row_id r)) rows)
       (bom plain_env harness_BA) =
     Inr [(''Connector, 1 pins'', FStr ''B'', 1), (''Connector, 1 pins'', FStr ''A'', 2)]
   \<and> parse expand (pn_doc [''A'', ''B''] sets_X1_X2) = Inr harness_AB
   \<and> parse expand (pn_doc [''A'', ''B''] sets_X2_X1) = Inr harness_BA
   \<and> map_sum (\<lambda>e. e) (map (\<lambda>r. (item r, pn r, row_id r)))
       (parse_bom expand plain_env (pn_doc [''A'', ''B''] sets_X1_X2)) =
     Inr [(''Connector, 1 pins'', FStr ''A'', 1), (''Connector, 1 pins'', FStr ''B'', 2)]
   \<and> map_sum (\<lambda>e. e) (map (\<lambda>r. (item r, pn r, row_id r)))
       (parse_bom expand plain_env (pn_doc [''A'', ''B''] sets_X2_X1)) =
     Inr [(''Connector, 1 pins'', FStr ''B'', 1), (''Connector, 1 pins'', FStr ''A'', 2)]"
proof -
  have "mset (connectors harness_BA) = mset (connectors harness_AB)"
    by (simp add: harness_BA_def harness_AB_def add_connector_def Harness_init_def)
  moreover have "map_sum (\<lambda>e. e) (\<lambda>(rows, h). map (\<lambda>r. (item r, pn r, row_id r)) rows)
       (bom plain_env harness_AB) =
     Inr [(''Connector, 1 pins'', FStr ''A'', 1), (''Connector, 1 pins'', FStr ''B'', 2)]"
    by code_simp
  moreover have "map_sum (\<lambda>e. e) (\<lambda>(rows, h). map (\<lambda>r. (item r, pn r, row_id r)) rows)
       (bom plain_env harness_BA) =
     Inr [(''Connector, 1 pins'', FStr ''B'', 1), (''Connector, 1 pins'', FStr ''A'', 2)]"
    by code_simp
  moreover have "parse expand (pn_doc [''A'', ''B''] sets_X1_X2) = Inr harness_AB"
    by code_simp
  moreover have "parse expand (pn_doc [''A'', ''B''] sets_X2_X1) = Inr harness_BA"
    by code_simp
  moreover have "map_sum (\<lambda>e. e) (map (\<lambda>r. (item r, pn r, row_id r)))
       (parse_bom expand plain_env (pn_doc [''A'', ''B''] sets_X1_X2)) =
     Inr [(''Connector, 1 pins'', FStr ''A'', 1), (''Connector, 1 pins'', FStr ''B'', 2)]"
    by code_simp
  moreover have "map_sum (\<lambda>e. e) (map (\<lambda>r. (item r, pn r, row_id r)))
       (parse_bom expand plain_env (pn_doc [''A'', ''B''] sets_X2_X1)) =
     Inr [(''Connector, 1 pins'', FStr ''B'', 1), (''Connector, 1 pins'', FStr ''A'', 2)]"
    by code_simp
  ultimately show ?thesis by blast
qed

text \<open>
  Claim C8, amended. The order in which the templates are declared in the document does
  not reach the harness: two documents with the same templates in any order (and the same
  connection sets and freestanding lines) give the same harness and the same rows. For two
  harnesses with empty caches that hold the same connectors and the same cables in any
  order, and the same freestanding lines: if \<open>bom\<close> returns on the first it returns on the
  second, with the same groups, that is the same keys with the same designators. If the
  sum of the quantities does not depend on the order of the summands (as for integers and
  exact decimals; a sum of floats may depend on it), the summed quantities are the same
  too, and if moreover no two rows have the same item description, the two results are the
  same list, ids included.
\<close>

theorem bom_permutation:
  fixes h1 h2 :: "'q::{times,plus,zero,one} harness" and d1 d2 :: "'q document"
  shows "(distinct (map fst (doc_connectors d1)) \<and> distinct (map fst (doc_cables d1))
          \<and> mset (doc_connectors d2) = mset (doc_connectors d1)
          \<and> mset (doc_cables d2) = mset (doc_cables d1)
          \<and> doc_connections d2 = doc_connections d1
          \<and> doc_additional_bom_items d2 = doc_additional_bom_items d1
          \<longrightarrow> parse ex d2 = parse ex d1 \<and> parse_bom ex env d2 = parse_bom ex env d1)
     \<and> (mset (connectors h2) = mset (connectors h1) \<and> mset (cables h2) = mset (cables h1)
          \<and> additional_bom_items h2 = additional_bom_items h1
          \<and> bom_cache h1 = [] \<and> bom_cache h2 = [] \<and> bom env h1 = Inr (rows1, h1')
          \<longrightarrow> (\<exists>rows2 h2'. bom env h2 = Inr (rows2, h2')
                \<and> mset (map (\<lambda>r. ((item r, unit r, manufacturer r, mpn r, pn r), designators r))
                          rows2) =
                  mset (map (\<lambda>r. ((item r, unit r, manufacturer r, mpn r, pn r), designators r))
                          rows1)
                \<and> ((\<forall>xs ys :: 'q list. mset xs = mset ys \<longrightarrow> foldl (+) 0 xs = foldl (+) 0 ys)
                     \<longrightarrow> mset (map (\<lambda>r. ((item r, unit r, manufacturer r, mpn r, pn r),
                                            qty r, designators r)) rows2) =
                         mset (map (\<lambda>r. ((item r, unit r, manufacturer r, mpn r, pn r),
                                            qty r, designators r)) rows1)
                         \<and> (distinct (map item rows1) \<longrightarrow> rows2 = rows1))))"
proof (intro conjI impI)
  assume a: "distinct (map fst (doc_connectors d1)) \<and> distinct (map fst (doc_cables d1))
          \<and> mset (doc_connectors d2) = mset (doc_connectors d1)
          \<and> mset (doc_cables d2) = mset (doc_cables d1)
          \<and> doc_connections d2 = doc_connections d1
          \<and> doc_additional_bom_items d2 = doc_additional_bom_items d1"
  then show p: "parse ex d2 = parse ex d1" by (intro parse_templates) simp_all
  then show "parse_bom ex env d2 = parse_bom ex env d1" by (simp only: parse_bom_def)
next
  assume a: "mset (connectors h2) = mset (connectors h1) \<and> mset (cables h2) = mset (cables h1)
          \<and> additional_bom_items h2 = additional_bom_items h1
          \<and> bom_cache h1 = [] \<and> bom_cache h2 = [] \<and> bom env h1 = Inr (rows1, h1')"
  let ?es1 = "bom_entries env h1" and ?es2 = "bom_entries env h2"
  have es: "mset ?es2 = mset ?es1" using a by (intro entries_perm) simp_all
  have r1: "rows1 = bom_rows env ?es1" using rows_of_bom(1)[of h1 env rows1 h1'] a by simp
  have "list_all hashable (map bom_types_group ?es1)"
    using a by (auto simp: bom_def Let_def split: if_splits)
  then have "list_all hashable (map bom_types_group ?es2)"
    using hashable_perm[OF es] by simp
  then have b2: "bom env h2 = Inr (bom_rows env ?es2, h2\<lparr>bom_cache := bom_rows env ?es2\<rparr>)"
    using a by (simp add: bom_def Let_def)
  have k: "mset (map (\<lambda>r. ((item r, unit r, manufacturer r, mpn r, pn r), designators r))
                   (bom_rows env ?es2)) =
           mset (map (\<lambda>r. ((item r, unit r, manufacturer r, mpn r, pn r), designators r))
                   rows1)"
    unfolding r1 using es by (rule rows_perm_keys)
  have s: "mset (map (\<lambda>r. ((item r, unit r, manufacturer r, mpn r, pn r), qty r, designators r))
                   (bom_rows env ?es2)) =
           mset (map (\<lambda>r. ((item r, unit r, manufacturer r, mpn r, pn r), qty r, designators r))
                   rows1)
           \<and> (distinct (map item rows1) \<longrightarrow> bom_rows env ?es2 = rows1)"
    if H: "\<forall>xs ys :: 'q list. mset xs = mset ys \<longrightarrow> foldl (+) 0 xs = foldl (+) 0 ys"
  proof -
    from H have H': "\<And>xs ys :: 'q list. mset xs = mset ys \<Longrightarrow> foldl (+) 0 xs = foldl (+) 0 ys"
      by blast
    show ?thesis
      unfolding r1 using rows_perm_sum[of ?es2 ?es1 env, OF H' es] by blast
  qed
  show "\<exists>rows2 h2'. bom env h2 = Inr (rows2, h2')
                \<and> mset (map (\<lambda>r. ((item r, unit r, manufacturer r, mpn r, pn r), designators r))
                          rows2) =
                  mset (map (\<lambda>r. ((item r, unit r, manufacturer r, mpn r, pn r), designators r))
                          rows1)
                \<and> ((\<forall>xs ys :: 'q list. mset xs = mset ys \<longrightarrow> foldl (+) 0 xs = foldl (+) 0 ys)
                     \<longrightarrow> mset (map (\<lambda>r. ((item r, unit r, manufacturer r, mpn r, pn r),
                                            qty r, designators r)) rows2) =
                         mset (map (\<lambda>r. ((item r, unit r, manufacturer r, mpn r, pn r),
                                            qty r, designators r)) rows1)
                         \<and> (distinct (map item rows1) \<longrightarrow> rows2 = rows1))"
    using b2 k s by blast
qed

theorem bom_permutation_witness:
  "mset (doc_connectors (pn_doc [''B'', ''A''] sets_X1_X2)) =
     mset (doc_connectors (pn_doc [''A'', ''B''] sets_X1_X2))
   \<and> doc_connectors (pn_doc [''B'', ''A''] sets_X1_X2) \<noteq>
     doc_connectors (pn_doc [''A'', ''B''] sets_X1_X2)
   \<and> parse expand (pn_doc [''B'', ''A''] sets_X1_X2) = parse expand (pn_doc [''A'', ''B''] sets_X1_X2)
   \<and> parse_bom expand plain_env (pn_doc [''B'', ''A''] sets_X1_X2) =
     parse_bom expand plain_env (pn_doc [''A'', ''B''] sets_X1_X2)
   \<and> mset (connectors harness_WXX) = mset (connectors harness_XXW)
   \<and> mset (cables harness_WXX) = mset (cables harness_XXW)
   \<and> connectors harness_WXX \<noteq> connectors harness_XXW
   \<and> bom plain_env harness_XXW = Inr (rows_XXW, harness_XXW\<lparr>bom_cache := rows_XXW\<rparr>)
   \<and> distinct (map item rows_XXW)
   \<and> bom plain_env harness_WXX = Inr (rows_XXW, harness_WXX\<lparr>bom_cache := rows_XXW\<rparr>)"
proof -
  let ?d1 = "pn_doc [''A'', ''B''] sets_X1_X2" and ?d2 = "pn_doc [''B'', ''A''] sets_X1_X2"
  have m: "mset (doc_connectors ?d2) = mset (doc_connectors ?d1)"
    by (simp add: pn_doc_def)
  have n0: "doc_connectors ?d2 \<noteq> doc_connectors ?d1"
    by (simp add: pn_doc_def)
  have pre: "distinct (map fst (doc_connectors ?d1)) \<and> distinct (map fst (doc_cables ?d1))
          \<and> mset (doc_connectors ?d2) = mset (doc_connectors ?d1)
          \<and> mset (doc_cables ?d2) = mset (doc_cables ?d1)
          \<and> doc_connections ?d2 = doc_connections ?d1
          \<and> doc_additional_bom_items ?d2 = doc_additional_bom_items ?d1"
    by (simp add: pn_doc_def)
  have c: "mset (connectors harness_WXX) = mset (connectors harness_XXW)"
    by (simp add: harness_WXX_def harness_XXW_def add_connector_def add_cable_def Harness_init_def)
  have w: "mset (cables harness_WXX) = mset (cables harness_XXW)"
    by (simp add: harness_WXX_def harness_XXW_def add_connector_def add_cable_def Harness_init_def)
  have n: "connectors harness_WXX \<noteq> connectors harness_XXW"
    by (simp add: harness_WXX_def harness_XXW_def add_connector_def add_cable_def Harness_init_def)
  have a: "additional_bom_items harness_WXX = additional_bom_items harness_XXW"
    by (simp add: harness_WXX_def harness_XXW_def add_connector_def add_cable_def Harness_init_def)
  have e1: "bom_cache harness_XXW = []" and e2: "bom_cache harness_WXX = []"
    by (simp_all add: harness_WXX_def harness_XXW_def add_connector_def add_cable_def Harness_init_def)
  have d: "distinct (map item rows_XXW)" by (simp add: rows_XXW_def)
  have H: "\<forall>xs ys :: int list. mset xs = mset ys \<longrightarrow> foldl (+) 0 xs = foldl (+) 0 ys"
    using py_sum_perm by blast
  note t = bom_permutation[of ?d1 ?d2 expand plain_env harness_WXX harness_XXW rows_XXW
      "harness_XXW\<lparr>bom_cache := rows_XXW\<rparr>"]
  from t pre have p: "parse expand ?d2 = parse expand ?d1"
    and pb: "parse_bom expand plain_env ?d2 = parse_bom expand plain_env ?d1"
    by blast+
  from t c w a e1 e2 bom_XXW H d obtain h2' where
    "bom plain_env harness_WXX = Inr (rows_XXW, h2')" by blast
  then have "bom plain_env harness_WXX = Inr (rows_XXW, harness_WXX\<lparr>bom_cache := rows_XXW\<rparr>)"
    using rows_of_bom(2)[OF e2] by blast
  with m n0 p pb c w n bom_XXW d show ?thesis by blast
qed

end
